theory Spec2Isabelle
  imports Main "HOL-Library.Word" "HOL-Library.Multiset"
begin

unbundle bit_operations_syntax

section \<open>Cards and strings\<close>

text \<open>
  The rules engine of the Spider solitaire lives in \<^verbatim>\<open>logic.js\<close>; the inventory check the
  user interface calls lives in \<^verbatim>\<open>validation.js\<close>. A card is the object
  \<^verbatim>\<open>{id, suit, rank, faceUp}\<close>. The engine shares card objects: the arrays of the tableau,
  the stock and the foundations list hold references to them, and so do the fields
  \<^verbatim>\<open>cards\<close>, \<^verbatim>\<open>moved\<close>, \<^verbatim>\<open>dealt\<close> and \<^verbatim>\<open>turned\<close> of a history entry. \<^verbatim>\<open>undo\<close>
  and \<^verbatim>\<open>redo\<close> push the objects of an entry on a column, where a later write to
  \<^verbatim>\<open>faceUp\<close> reaches the entry as well. The state below therefore keeps every card object
  in a store and lets the containers and the entries hold addresses into it.
\<close>

datatype suit = SPADE | DIAMOND | HEART | CLUB

record card =
  id_card :: nat
  suit :: suit
  rank :: int
  faceUp :: bool

text \<open>A JavaScript string is a sequence of UTF-16 code units.\<close>

type_synonym js_string = "nat list"

definition lit :: "string \<Rightarrow> js_string" where
  "lit s = map of_char s"

type_synonym u32 = "32 word"

section \<open>PRNG\<close>

text \<open>
  \<^verbatim>\<open>mulberry32(a)\<close> returns a closure over \<^verbatim>\<open>a\<close>; a call adds \<^verbatim>\<open>0x6D2B79F5\<close> to
  \<^verbatim>\<open>a\<close> and returns \<^verbatim>\<open>((t ^ t>>>14)>>>0)/4294967296\<close>. The model returns the numerator
  together with the new \<^verbatim>\<open>a\<close>. The source keeps \<^verbatim>\<open>a\<close> as a double that grows without
  wrapping; every use of it goes through a 32-bit conversion (\<^verbatim>\<open>^\<close>, \<^verbatim>\<open>>>>\<close>,
  \<^verbatim>\<open>|\<close>, \<^verbatim>\<open>Math.imul\<close>), so the word is the same value for as long as the double is
  exact (several million calls).
\<close>

definition mulberry32 :: "u32 \<Rightarrow> u32 \<times> u32" where
  "mulberry32 a =
     (let a' = a + 0x6D2B79F5;
          t = a';
          t = (t XOR drop_bit 15 t) * (t OR 1);
          t = t XOR (t + (t XOR drop_bit 7 t) * (t OR 61))
      in (t XOR drop_bit 14 t, a'))"

fun hashSeed_loop :: "u32 \<Rightarrow> js_string \<Rightarrow> u32" where
  "hashSeed_loop h [] = h"
| "hashSeed_loop h (c # cs) = hashSeed_loop ((h XOR word_of_nat c) * 16777619) cs"

definition hashSeed :: "js_string \<Rightarrow> u32" where
  "hashSeed str = hashSeed_loop 2166136261 str"

text \<open>
  \<^verbatim>\<open>shuffle\<close>: \<^verbatim>\<open>for(i=arr.length-1;i>0;i--){ j=(rnd()*(i+1))|0; swap }\<close>. With
  \<^verbatim>\<open>rnd() = r/2^32\<close> and \<^verbatim>\<open>i+1\<close> small, the product is exact in a double and
  \<^verbatim>\<open>|0\<close> truncates it: \<^verbatim>\<open>j = (r * (i+1)) div 2^32\<close>.
\<close>

definition shuffle_swap :: "nat \<Rightarrow> 'a list \<Rightarrow> u32 \<Rightarrow> 'a list" where
  "shuffle_swap i arr r =
     (let j = nat ((uint r * (int i + 1)) div 4294967296)
      in arr[i := arr ! j, j := arr ! i])"

text \<open>
  \<open>shuffle_from i arr a\<close> is the loop from index \<open>i\<close> down to 1;
  \<open>shuffle_step\<close> is its body once \<^verbatim>\<open>rnd()\<close> has been drawn.
\<close>

fun shuffle_from :: "nat \<Rightarrow> 'a list \<Rightarrow> u32 \<Rightarrow> 'a list \<times> u32"
  and shuffle_step :: "nat \<Rightarrow> 'a list \<Rightarrow> u32 \<times> u32 \<Rightarrow> 'a list \<times> u32" where
  "shuffle_from 0 arr a = (arr, a)"
| "shuffle_from (Suc k) arr a = shuffle_step k arr (mulberry32 a)"
| "shuffle_step k arr (r, a') = shuffle_from k (shuffle_swap (Suc k) arr r) a'"

definition shuffle :: "'a list \<Rightarrow> u32 \<Rightarrow> 'a list \<times> u32" where
  "shuffle arr a = shuffle_from (length arr - 1) arr a"

section \<open>Deck and dealing\<close>

text \<open>
  \<^verbatim>\<open>createDeck\<close> makes the card objects and \<^verbatim>\<open>initialDeal\<close> distributes them; until
  \<^verbatim>\<open>newGame\<close> has stored the result in the state, each of these objects is referenced from
  one array slot only, so the two functions are given on the cards themselves.
\<close>

definition suit_cards :: "nat \<Rightarrow> suit \<Rightarrow> card list" where
  "suit_cards i s =
     map (\<lambda>r. \<lparr>id_card = i + nat (r - 1), suit = s, rank = r, faceUp = False\<rparr>) [1..13]"

fun build_deck :: "nat \<Rightarrow> suit list \<Rightarrow> card list" where
  "build_deck i [] = []"
| "build_deck i (s # ss) = suit_cards i s @ build_deck (i + 13) ss"

definition createDeck :: "js_string \<Rightarrow> bool \<Rightarrow> card list" where
  "createDeck difficulty includeAces =
     (let suits =
            (if difficulty = lit ''1-suit'' then replicate 8 SPADE
             else if difficulty = lit ''2-suit'' then replicate 4 SPADE @ replicate 4 DIAMOND
             else [SPADE, DIAMOND, HEART, CLUB, SPADE, DIAMOND, HEART, CLUB]);
          deck = build_deck 0 suits
      in if \<not> includeAces then filter (\<lambda>c. rank c \<noteq> 1) deck else deck)"

text \<open>
  The dealing loops of \<^verbatim>\<open>initialDeal\<close>:
  \<^verbatim>\<open>for (pass = 0; pass < 6 && idx < remaining.length; pass++)
    for (c = 0; c < 10 && idx < remaining.length; c++) {
      if (pass === 5 && c >= 4) continue;
      cols[c].push(remaining[idx++]); }\<close>
\<close>

function deal_cols :: "nat \<Rightarrow> nat \<Rightarrow> card list \<Rightarrow> nat \<Rightarrow> card list list \<Rightarrow> nat \<times> card list list" where
  "deal_cols pass c remaining idx cols =
     (if c < 10 \<and> idx < length remaining then
        (if pass = 5 \<and> c \<ge> 4 then deal_cols pass (c + 1) remaining idx cols
         else deal_cols pass (c + 1) remaining (idx + 1)
                (cols[c := cols ! c @ [remaining ! idx]]))
      else (idx, cols))"
  by pat_completeness auto
termination
  by (relation "measure (\<lambda>(pass, c, remaining, idx, cols). 10 - c)") auto

declare deal_cols.simps [simp del]

function deal_passes :: "nat \<Rightarrow> card list \<Rightarrow> nat \<Rightarrow> card list list \<Rightarrow> card list list" where
  "deal_passes pass remaining idx cols =
     (if pass < 6 \<and> idx < length remaining then
        (let (idx', cols') = deal_cols pass 0 remaining idx cols
         in deal_passes (pass + 1) remaining idx' cols')
      else cols)"
  by pat_completeness auto
termination
  by (relation "measure (\<lambda>(pass, remaining, idx, cols). 6 - pass)") auto

declare deal_passes.simps [simp del]

text \<open>\<^verbatim>\<open>if (cols[c].length) cols[c][cols[c].length - 1].faceUp = true\<close>\<close>

definition flip_top :: "card list \<Rightarrow> card list" where
  "flip_top col = (if col = [] then col else butlast col @ [(last col)\<lparr>faceUp := True\<rparr>])"

text \<open>
  \<^verbatim>\<open>initialDeal\<close> shuffles the deck once more with \<^verbatim>\<open>state.rng\<close>, keeps the first 50
  cards as stock and deals the rest. It returns the tableau, the stock and the generator's
  new state.
\<close>

fun deal_shuffled :: "card list \<times> u32 \<Rightarrow> card list list \<times> card list \<times> u32" where
  "deal_shuffled (deck, a) =
     (map flip_top (deal_passes 0 (drop 50 deck) 0 (replicate 10 [])), take 50 deck, a)"

definition initialDeal :: "card list \<Rightarrow> u32 \<Rightarrow> card list list \<times> card list \<times> u32" where
  "initialDeal deck a = deal_shuffled (shuffle deck a)"

section \<open>Engine state\<close>

text \<open>
  A reference to a card object is its address in the store. A history entry is the object
  \<^verbatim>\<open>{t:'complete', col, cards, turned}\<close>, \<^verbatim>\<open>{t:'move', from, to, moved, turned}\<close> or
  \<^verbatim>\<open>{t:'deal', dealt}\<close>; its card fields hold references.
\<close>

type_synonym ref = nat

datatype entry =
    Complete nat "ref list" "ref option"
  | Move nat nat "ref list" "ref option"
  | Deal "ref list"

text \<open>
  The fields of \<^verbatim>\<open>state\<close> the rules read or write, and the store of the card objects
  made so far (an object keeps its address for good). \<open>tableau_refs\<close>, \<open>stock_refs\<close> and
  \<open>foundation_refs\<close> are the arrays \<^verbatim>\<open>state.tableau\<close>, \<^verbatim>\<open>state.stock\<close> and
  \<^verbatim>\<open>state.foundationsCards\<close>. The timer fields (\<^verbatim>\<open>startTime\<close>, \<^verbatim>\<open>elapsedMs\<close>,
  \<^verbatim>\<open>running\<close>) and the fields only the user interface uses (\<^verbatim>\<open>message\<close>, \<^verbatim>\<open>hint\<close>)
  are left out, and so are the calls into \<^verbatim>\<open>hooks\<close> and \<^verbatim>\<open>window.GameHistory\<close>, which
  do not write the fields kept here. The stacks \<^verbatim>\<open>history\<close> and \<^verbatim>\<open>redo\<close> grow at the
  end of the list, as the arrays do.
\<close>

record state =
  difficulty :: js_string
  seed :: js_string
  rng :: "u32 option"
  includeAces :: bool
  store :: "card list"
  tableau_refs :: "ref list list"
  stock_refs :: "ref list"
  dealsRemaining :: int
  foundations :: int
  moves :: int
  score :: int
  history :: "entry list"
  redo_stack :: "entry list"
  won :: bool
  foundation_refs :: "ref list"

text \<open>
  What the arrays hold, card by card: \<open>tableau\<close>, \<open>stock\<close> and \<open>foundationsCards\<close> are
  the contents of \<^verbatim>\<open>state.tableau\<close>, \<^verbatim>\<open>state.stock\<close> and \<^verbatim>\<open>state.foundationsCards\<close>
  as \<^verbatim>\<open>serializeGameState\<close> copies them, and \<open>column s c\<close> is \<^verbatim>\<open>state.tableau[c]\<close>.
\<close>

definition cards_of :: "card list \<Rightarrow> ref list \<Rightarrow> card list" where
  "cards_of st refs = map (nth st) refs"

definition column :: "state \<Rightarrow> nat \<Rightarrow> card list" where
  "column s c = cards_of (store s) (tableau_refs s ! c)"

definition tableau :: "state \<Rightarrow> card list list" where
  "tableau s = map (cards_of (store s)) (tableau_refs s)"

definition stock :: "state \<Rightarrow> card list" where
  "stock s = cards_of (store s) (stock_refs s)"

definition foundationsCards :: "state \<Rightarrow> card list" where
  "foundationsCards s = cards_of (store s) (foundation_refs s)"

text \<open>The assignment \<^verbatim>\<open>card.faceUp = b\<close> to the object at address \<open>r\<close>.\<close>

definition set_faceUp :: "ref \<Rightarrow> bool \<Rightarrow> card list \<Rightarrow> card list" where
  "set_faceUp r b st = st[r := (st ! r)\<lparr>faceUp := b\<rparr>]"

text \<open>The object literal \<^verbatim>\<open>state\<close> of the module.\<close>

definition state_init :: state where
  "state_init =
     \<lparr>difficulty = lit ''1-suit'', seed = [], rng = None, includeAces = False,
      store = [], tableau_refs = replicate 10 [], stock_refs = [], dealsRemaining = 5,
      foundations = 0, moves = 0, score = 500, history = [], redo_stack = [], won = False,
      foundation_refs = []\<rparr>"

text \<open>
  A call either returns a value and leaves a state, or throws a \<^verbatim>\<open>TypeError\<close> (a property
  read on \<^verbatim>\<open>undefined\<close>) and leaves the state as mutated so far.
\<close>

datatype 'a outcome = Returned 'a state | Threw state

fun state_of :: "'a outcome \<Rightarrow> state" where
  "state_of (Returned v s) = s"
| "state_of (Threw s) = s"

section \<open>New game\<close>

definition diff_label :: "js_string \<Rightarrow> js_string" where
  "diff_label d =
     (if d = lit ''1'' \<or> d = lit ''1-suit'' then lit ''1-suit''
      else if d = lit ''2'' \<or> d = lit ''2-suit'' then lit ''2-suit''
      else lit ''4-suit'')"

text \<open>
  The dealt cards enter the store as new objects, column by column and then the stock;
  \<open>refs_from b cols\<close> are their addresses, counted from \<open>b\<close>.
\<close>

fun refs_from :: "nat \<Rightarrow> card list list \<Rightarrow> ref list list" where
  "refs_from b [] = []"
| "refs_from b (col # cols) = [b..<b + length col] # refs_from (b + length col) cols"

text \<open>
  \<^verbatim>\<open>newGame({difficulty=state.difficulty, seed=randSeed(), includeAces=state.includeAces})\<close>.
  An omitted \<^verbatim>\<open>difficulty\<close> or \<^verbatim>\<open>includeAces\<close> is \<open>None\<close>; the seed is always
  given here, since \<^verbatim>\<open>randSeed()\<close> draws it from \<^verbatim>\<open>crypto\<close>. The function assigns every
  field of the state but \<^verbatim>\<open>foundationsCards\<close>, whose objects stay in the store with the
  other objects of the game before.
\<close>

fun new_state :: "js_string \<Rightarrow> js_string \<Rightarrow> bool \<Rightarrow> card list list \<times> card list \<times> u32 \<Rightarrow> state \<Rightarrow> state" where
  "new_state diff seed_arg aces (tab, stk, a) s =
     s\<lparr>difficulty := diff, seed := seed_arg, includeAces := aces, rng := Some a,
       store := store s @ concat tab @ stk,
       tableau_refs := refs_from (length (store s)) tab,
       stock_refs := [length (store s) + length (concat tab)..<
                      length (store s) + length (concat tab) + length stk],
       dealsRemaining := 5, foundations := 0,
       moves := 0, score := 500, history := [], redo_stack := [], won := False\<rparr>"

fun deal_new :: "card list \<times> u32 \<Rightarrow> card list list \<times> card list \<times> u32" where
  "deal_new (deck, a) = initialDeal deck a"

definition start_game :: "js_string \<Rightarrow> js_string \<Rightarrow> bool \<Rightarrow> state \<Rightarrow> state" where
  "start_game diff seed_arg aces s =
     new_state diff seed_arg aces
       (deal_new (shuffle (createDeck diff aces) (hashSeed (diff @ lit '':'' @ seed_arg)))) s"

definition newGame :: "js_string option \<Rightarrow> js_string \<Rightarrow> bool option \<Rightarrow> state \<Rightarrow> state" where
  "newGame difficulty_arg seed_arg includeAces_arg s =
     start_game
       (diff_label (case difficulty_arg of None \<Rightarrow> difficulty s | Some d \<Rightarrow> d))
       seed_arg
       (case includeAces_arg of None \<Rightarrow> includeAces s | Some b \<Rightarrow> b)
       s"

section \<open>Rules helpers\<close>

text \<open>\<^verbatim>\<open>top(col)\<close> is \<^verbatim>\<open>col[col.length-1]\<close>, \<^verbatim>\<open>undefined\<close> on an empty column.\<close>

definition top :: "card list \<Rightarrow> card option" where
  "top col = (if col = [] then None else Some (last col))"

definition canDrop :: "card \<Rightarrow> card option \<Rightarrow> bool" where
  "canDrop tailHead destTop =
     (case destTop of None \<Rightarrow> True | Some d \<Rightarrow> rank tailHead + 1 = rank d)"

text \<open>
  \<^verbatim>\<open>Array.prototype.splice(start, deleteCount)\<close>, what is left of the array: a negative
  \<^verbatim>\<open>start\<close> counts from the end and is clamped at 0.
\<close>

definition splice :: "int \<Rightarrow> int \<Rightarrow> 'a list \<Rightarrow> 'a list" where
  "splice start deleteCount xs =
     (let len = int (length xs);
          actualStart = (if start < 0 then max (len + start) 0 else min start len);
          actualDelete = min (max deleteCount 0) (len - actualStart)
      in take (nat actualStart) xs @ drop (nat (actualStart + actualDelete)) xs)"

text \<open>\<^verbatim>\<open>col.findIndex(c => c.id === id)\<close>, \<open>None\<close> for \<^verbatim>\<open>-1\<close>.\<close>

fun findIndex :: "nat \<Rightarrow> card list \<Rightarrow> nat option" where
  "findIndex i [] = None"
| "findIndex i (c # cs) =
     (if id_card c = i then Some 0
      else (case findIndex i cs of None \<Rightarrow> None | Some k \<Rightarrow> Some (Suc k)))"

text \<open>
  \<^verbatim>\<open>if (h.turned) { idx = col.findIndex(c => c.id === h.turned.id);
  if (idx >= 0) col[idx].faceUp = b; }\<close>: the write goes to the object the column holds
  at \<^verbatim>\<open>idx\<close>.
\<close>

definition set_turned :: "ref option \<Rightarrow> bool \<Rightarrow> ref list \<Rightarrow> card list \<Rightarrow> card list" where
  "set_turned turned b col st =
     (case turned of None \<Rightarrow> st
      | Some t \<Rightarrow>
          (case findIndex (id_card (st ! t)) (cards_of st col) of None \<Rightarrow> st
           | Some idx \<Rightarrow> set_faceUp (col ! idx) b st))"

text \<open>
  \<^verbatim>\<open>if (col.length && !top(col).faceUp) { top(col).faceUp = true; turned = top(col); }\<close>:
  the store and the value of \<^verbatim>\<open>turned\<close>.
\<close>

definition expose :: "ref list \<Rightarrow> card list \<Rightarrow> card list \<times> ref option" where
  "expose col st =
     (if col \<noteq> [] \<and> \<not> faceUp (st ! last col)
      then (set_faceUp (last col) True st, Some (last col))
      else (st, None))"

section \<open>Completion detection\<close>

text \<open>
  \<^verbatim>\<open>tryComplete(col, includeAces)\<close>. \<open>scan\<close> is the inner loop over \<^verbatim>\<open>j\<close> (its first
  argument is \<^verbatim>\<open>j + 1\<close>), with \<open>None\<close> for leaving it without a result (\<^verbatim>\<open>break\<close>, or
  \<^verbatim>\<open>j\<close> below 0) and the sorted \<^verbatim>\<open>sequenceIndices\<close> where the source goes on to remove
  cards; \<open>try_from\<close> is the outer loop over \<^verbatim>\<open>i\<close>, and \<open>find_run\<close> the function up to
  there. \<open>remove_indices\<close> is the loop
  \<^verbatim>\<open>for (const idx of sequenceIndices) removed.push(col.splice(idx,1)[0])\<close>.
  \<open>tryComplete\<close> gives the removed cards and what is left of the column, or \<open>None\<close> for
  \<^verbatim>\<open>null\<close> (the column is then unchanged).
\<close>

fun remove_indices :: "nat list \<Rightarrow> 'a list \<Rightarrow> 'a list \<Rightarrow> 'a list \<times> 'a list" where
  "remove_indices [] col removed = (removed, col)"
| "remove_indices (idx # idxs) col removed =
     remove_indices idxs (take idx col @ drop (Suc idx) col) (removed @ [col ! idx])"

definition isK2 :: "card list \<Rightarrow> bool" where
  "isK2 sequence = (sort (map rank sequence) ! 0 = 2 \<and> sort (map rank sequence) ! 11 = 13)"

fun scan :: "nat \<Rightarrow> card list \<Rightarrow> suit \<Rightarrow> bool \<Rightarrow> card list \<Rightarrow> nat list \<Rightarrow> nat list option" where
  "scan 0 col st aces sequence sequenceIndices = None"
| "scan (Suc j) col st aces sequence sequenceIndices =
     (if \<not> faceUp (col ! j) then scan j col st aces sequence (sequenceIndices @ [j])
      else if (suit (col ! j) = st \<and> rank (col ! j) = rank (last sequence) + 1) \<or>
              (suit (col ! j) = st \<and> rank (col ! j) = rank (last sequence) - 1)
      then
        (if (aces \<and> length (sequence @ [col ! j]) = 13) \<or>
            (\<not> aces \<and> length (sequence @ [col ! j]) = 12)
         then
           (if \<not> aces \<and> length (sequence @ [col ! j]) = 12 \<and> \<not> isK2 (sequence @ [col ! j])
            then None
            else Some (rev (sort (sequenceIndices @ [j]))))
         else scan j col st aces (sequence @ [col ! j]) (sequenceIndices @ [j]))
      else None)"

fun try_from :: "nat \<Rightarrow> card list \<Rightarrow> bool \<Rightarrow> nat list option" where
  "try_from 0 col aces = None"
| "try_from (Suc i) col aces =
     (if \<not> faceUp (col ! i) then try_from i col aces
      else (case scan i col (suit (col ! i)) aces [col ! i] [i] of
              Some r \<Rightarrow> Some r
            | None \<Rightarrow> try_from i col aces))"

definition find_run :: "card list \<Rightarrow> bool \<Rightarrow> nat list option" where
  "find_run col aces =
     (if int (length col) < 14 - (if aces then 1 else 2) then None
      else try_from (length col) col aces)"

definition tryComplete :: "card list \<Rightarrow> bool \<Rightarrow> (card list \<times> card list) option" where
  "tryComplete col aces =
     (case find_run col aces of None \<Rightarrow> None
      | Some sequenceIndices \<Rightarrow> Some (remove_indices sequenceIndices col []))"

text \<open>
  \<^verbatim>\<open>completeTopRun(colIndex, includeAces)\<close>, for a column index the tableau has (its
  callers pass no other). The column is an array of references: the indices found on its
  cards are removed from it, and the removed objects are the ones pushed on the
  foundations list and kept in the entry.
\<close>

fun record_complete :: "nat \<Rightarrow> ref list \<Rightarrow> ref list \<Rightarrow> card list \<times> ref option \<Rightarrow> state \<Rightarrow> state" where
  "record_complete colIndex rem col (st, turned) s =
     s\<lparr>store := st,
       tableau_refs := (tableau_refs s)[colIndex := col],
       foundation_refs := foundation_refs s @ rem,
       foundations := foundations s + 1,
       history := history s @ [Complete colIndex rem turned],
       score := score s + 100\<rparr>"

fun complete_with :: "nat \<Rightarrow> ref list \<times> ref list \<Rightarrow> state \<Rightarrow> state" where
  "complete_with colIndex (rem, col) s =
     record_complete colIndex rem col (expose col (store s)) s"

definition completeTopRun :: "nat \<Rightarrow> bool \<Rightarrow> state \<Rightarrow> bool \<times> state" where
  "completeTopRun colIndex aces s =
     (case find_run (column s colIndex) aces of
        None \<Rightarrow> (False, s)
      | Some sequenceIndices \<Rightarrow>
          (True, complete_with colIndex
                   (remove_indices sequenceIndices (tableau_refs s ! colIndex) []) s))"

text \<open>\<^verbatim>\<open>for (let c=0; c<10; c++) completeTopRun(c, state.includeAces)\<close>, from column \<open>c\<close>.\<close>

fun complete_all :: "nat \<Rightarrow> nat \<Rightarrow> state \<Rightarrow> state" where
  "complete_all 0 c s = s"
| "complete_all (Suc n) c s = complete_all n (Suc c) (snd (completeTopRun c (includeAces s) s))"

definition checkWin :: "state \<Rightarrow> state" where
  "checkWin s = (if foundations s = 8 then s\<lparr>won := True\<rparr> else s)"

section \<open>Dealing a row\<close>

text \<open>
  The guard loop \<^verbatim>\<open>for (c=0; c<10; c++) if (state.tableau[c].length===0) return false\<close>
  over the first \<open>n\<close> columns: it passes, rejects at an empty column, or throws at a
  column the tableau does not have.
\<close>

datatype guard = Pass | Reject | Missing

fun deal_guard :: "nat \<Rightarrow> ref list list \<Rightarrow> guard" where
  "deal_guard 0 cols = Pass"
| "deal_guard (Suc n) [] = Missing"
| "deal_guard (Suc n) (col # cols) = (if col = [] then Reject else deal_guard n cols)"

text \<open>
  One step of either dealing loop: shift a card off the stock, turn it face-up and push
  it on column \<open>c\<close> and on \<^verbatim>\<open>dealt\<close>.
\<close>

definition deal_card :: "nat \<Rightarrow> state \<times> ref list \<Rightarrow> state \<times> ref list" where
  "deal_card c sd =
     (fst sd\<lparr>stock_refs := tl (stock_refs (fst sd)),
            store := set_faceUp (hd (stock_refs (fst sd))) True (store (fst sd)),
            tableau_refs := (tableau_refs (fst sd))
              [c := tableau_refs (fst sd) ! c @ [hd (stock_refs (fst sd))]]\<rparr>,
      snd sd @ [hd (stock_refs (fst sd))])"

text \<open>
  The final deal, \<^verbatim>\<open>for (c=0; c<state.stock.length; c++) { card = state.stock.shift(); ... }\<close>:
  the bound is read again after every shift.
\<close>

function final_deal :: "nat \<Rightarrow> state \<times> ref list \<Rightarrow> state \<times> ref list" where
  "final_deal c sd =
     (if c < length (stock_refs (fst sd)) then final_deal (Suc c) (deal_card c sd) else sd)"
  by pat_completeness auto
termination
  by (relation "measure (\<lambda>(c, sd). length (stock_refs (fst sd)) - c)") (auto simp: deal_card_def)

declare final_deal.simps [simp del]

text \<open>
  The other deal, \<^verbatim>\<open>for (c=0; c<cardsToDeal; c++) { card = state.stock.shift(); if (card) ... }\<close>,
  with \<open>n\<close> rounds left.
\<close>

fun normal_deal :: "nat \<Rightarrow> nat \<Rightarrow> state \<times> ref list \<Rightarrow> state \<times> ref list" where
  "normal_deal 0 c sd = sd"
| "normal_deal (Suc n) c sd =
     normal_deal n (Suc c) (if stock_refs (fst sd) = [] then sd else deal_card c sd)"

fun set_deals :: "int \<Rightarrow> state \<times> ref list \<Rightarrow> state \<times> ref list" where
  "set_deals d (s, dealt) = (s\<lparr>dealsRemaining := d\<rparr>, dealt)"

text \<open>
  The two branches of \<^verbatim>\<open>dealRow\<close> on \<^verbatim>\<open>isFinalDeal\<close>, with
  \<^verbatim>\<open>cardsToDeal = Math.min(state.stock.length, 10)\<close>: the state and the list \<^verbatim>\<open>dealt\<close>.
\<close>

definition deal_cards :: "state \<Rightarrow> state \<times> ref list" where
  "deal_cards s =
     (if dealsRemaining s = 1 \<and> length (stock_refs s) > 0 \<and> length (stock_refs s) < 10
      then set_deals 0 (final_deal 0 (s, []))
      else if min (length (stock_refs s)) 10 = 10
      then set_deals (dealsRemaining s - 1) (normal_deal 10 0 (s, []))
      else normal_deal (min (length (stock_refs s)) 10) 0 (s, []))"

fun record_deal :: "state \<times> ref list \<Rightarrow> state" where
  "record_deal (s, dealt) =
     s\<lparr>history := history s @ [Deal dealt], redo_stack := [], moves := moves s + 1,
       score := max 0 (score s - 1)\<rparr>"

definition dealRow :: "state \<Rightarrow> bool outcome" where
  "dealRow s =
     (if dealsRemaining s \<le> 0 \<and> length (stock_refs s) > 0 then Returned False s
      else (case deal_guard 10 (tableau_refs s) of
              Reject \<Rightarrow> Returned False s
            | Missing \<Rightarrow> Threw s
            | Pass \<Rightarrow> Returned True (complete_all 10 0 (record_deal (deal_cards s)))))"

section \<open>Moving a tail\<close>

text \<open>
  The loop \<^verbatim>\<open>for (i=n-1; i>startIndex; i--)\<close> of \<^verbatim>\<open>doMove\<close> over the pairs
  \<^verbatim>\<open>a=src[i], b=src[i-1]\<close>; the first argument is \<^verbatim>\<open>i\<close>. It is \<open>False\<close> where the
  source returns \<^verbatim>\<open>false\<close> from inside the loop.
\<close>

fun tail_ok :: "nat \<Rightarrow> nat \<Rightarrow> card list \<Rightarrow> bool" where
  "tail_ok 0 startIndex src = True"
| "tail_ok (Suc i) startIndex src =
     (if Suc i > startIndex then
        (if \<not> (faceUp (src ! Suc i) \<and> faceUp (src ! i) \<and>
                rank (src ! Suc i) + 1 = rank (src ! i) \<and> suit (src ! Suc i) = suit (src ! i))
         then False
         else tail_ok i startIndex src)
      else True)"

text \<open>
  \<^verbatim>\<open>structuredClone(moved)\<close> makes a new object for every moved card, with the fields the
  card has at that point (after the new top of the source was turned); the clones go to
  the end of the store and the entry holds their addresses. The cards of a tail that has
  passed the check have different ranks, so no object occurs twice in \<^verbatim>\<open>moved\<close>.
\<close>

fun record_move :: "nat \<Rightarrow> nat \<Rightarrow> ref list \<Rightarrow> ref list \<Rightarrow> card list \<times> ref option \<Rightarrow> state \<Rightarrow> state" where
  "record_move from to moved src (st, turned) s =
     s\<lparr>store := st @ cards_of st moved,
       tableau_refs := (tableau_refs s)[to := tableau_refs s ! to @ moved, from := src],
       history := history s @ [Move from to [length st..<length st + length moved] turned],
       redo_stack := [], moves := moves s + 1, score := max 0 (score s - 1)\<rparr>"

text \<open>
  The part of \<^verbatim>\<open>doMove\<close> after the checks: push the tail on the destination, truncate the
  source, turn its new top, record the entry, then \<^verbatim>\<open>completeTopRun(to)\<close>,
  \<^verbatim>\<open>completeTopRun(from)\<close> and \<^verbatim>\<open>checkWin()\<close>.
\<close>

definition move_cards :: "nat \<Rightarrow> nat \<Rightarrow> nat \<Rightarrow> state \<Rightarrow> state" where
  "move_cards from startIndex to s =
     record_move from to (drop startIndex (tableau_refs s ! from))
       (take startIndex (tableau_refs s ! from))
       (expose (take startIndex (tableau_refs s ! from)) (store s)) s"

definition after_move :: "nat \<Rightarrow> nat \<Rightarrow> state \<Rightarrow> state" where
  "after_move from to s =
     checkWin (snd (completeTopRun from (includeAces s)
                (snd (completeTopRun to (includeAces s) s))))"

text \<open>
  \<^verbatim>\<open>doMove(from, startIndex, to)\<close>. \<^verbatim>\<open>state.tableau[from]\<close> is \<^verbatim>\<open>undefined\<close> for a
  column the tableau does not have: \<^verbatim>\<open>src.length\<close> then throws, and so does
  \<^verbatim>\<open>top(dst)\<close> once the tail has passed its check.
\<close>

definition doMove :: "nat \<Rightarrow> int \<Rightarrow> nat \<Rightarrow> state \<Rightarrow> bool outcome" where
  "doMove from startIndex to s =
     (if from = to then Returned False s
      else if \<not> from < length (tableau_refs s) then Threw s
      else if startIndex < 0 \<or> startIndex \<ge> int (length (tableau_refs s ! from))
      then Returned False s
      else if \<not> tail_ok (length (tableau_refs s ! from) - 1) (nat startIndex) (column s from)
      then Returned False s
      else if \<not> to < length (tableau_refs s) then Threw s
      else if \<not> canDrop (column s from ! nat startIndex) (top (column s to))
      then Returned False s
      else Returned True (after_move from to (move_cards from (nat startIndex) to s)))"

section \<open>Undo and redo\<close>

text \<open>
  The array operations of \<^verbatim>\<open>undo\<close> and \<^verbatim>\<open>redo\<close> on column \<open>c\<close> of the tableau:
  \<^verbatim>\<open>col.splice(col.length-k, k)\<close>, \<^verbatim>\<open>col.push(...cards)\<close>, which pushes the objects the
  entry holds, and the write to \<^verbatim>\<open>faceUp\<close> of the card found by the id of
  \<^verbatim>\<open>h.turned\<close>.
\<close>

definition pop_cards :: "nat \<Rightarrow> nat \<Rightarrow> ref list list \<Rightarrow> ref list list" where
  "pop_cards c k cols = cols[c := splice (int (length (cols ! c)) - int k) (int k) (cols ! c)]"

definition push_cards :: "nat \<Rightarrow> ref list \<Rightarrow> ref list list \<Rightarrow> ref list list" where
  "push_cards c cards cols = cols[c := cols ! c @ cards]"

definition turn_in :: "nat \<Rightarrow> ref option \<Rightarrow> bool \<Rightarrow> state \<Rightarrow> state" where
  "turn_in c turned b s = s\<lparr>store := set_turned turned b (tableau_refs s ! c) (store s)\<rparr>"

text \<open>\<^verbatim>\<open>removeFromFoundations(cards)\<close>\<close>

definition removeFromFoundations :: "ref list \<Rightarrow> state \<Rightarrow> state" where
  "removeFromFoundations cards s =
     s\<lparr>foundation_refs :=
         filter (\<lambda>r. id_card (store s ! r) \<notin> set (map id_card (cards_of (store s) cards)))
           (foundation_refs s)\<rparr>"

text \<open>
  The loop of \<^verbatim>\<open>undo\<close> for a deal,
  \<^verbatim>\<open>for (i=9; i>=0; i--) { card = state.tableau[i].pop(); card.faceUp = false;
  state.stock.unshift(card); }\<close>; the first argument is \<^verbatim>\<open>i + 1\<close>. It throws at an empty
  column, where \<^verbatim>\<open>card\<close> is \<^verbatim>\<open>undefined\<close>.
\<close>

fun undo_deal :: "nat \<Rightarrow> state \<Rightarrow> unit outcome" where
  "undo_deal 0 s = Returned () s"
| "undo_deal (Suc i) s =
     (if i < length (tableau_refs s) \<and> tableau_refs s ! i \<noteq> []
      then undo_deal i
             (s\<lparr>tableau_refs := (tableau_refs s)[i := butlast (tableau_refs s ! i)],
                store := set_faceUp (last (tableau_refs s ! i)) False (store s),
                stock_refs := last (tableau_refs s ! i) # stock_refs s\<rparr>)
      else Threw s)"

text \<open>The statements after the loop, and the \<^verbatim>\<open>state.moves++\<close> that ends \<^verbatim>\<open>undo\<close>.\<close>

fun finish_undo_deal :: "entry \<Rightarrow> unit outcome \<Rightarrow> unit outcome" where
  "finish_undo_deal h (Returned u s) =
     Returned () (s\<lparr>dealsRemaining := dealsRemaining s + 1,
                    redo_stack := redo_stack s @ [h], moves := moves s + 1\<rparr>)"
| "finish_undo_deal h (Threw s) = Threw s"

text \<open>
  The branches of \<^verbatim>\<open>undo\<close> on \<^verbatim>\<open>h.t\<close>, on the state with \<^verbatim>\<open>h\<close> popped. The entry
  goes to the redo stack with the references it holds, so the objects now on the column
  are the objects of the entry.
\<close>

fun undo_entry :: "entry \<Rightarrow> state \<Rightarrow> unit outcome" where
  "undo_entry (Complete col cards turned) s =
     (if \<not> col < length (tableau_refs s) then Threw s
      else Returned ()
        ((removeFromFoundations cards
           (turn_in col turned False
              (s\<lparr>tableau_refs := push_cards col cards (tableau_refs s)\<rparr>)))
         \<lparr>foundations := foundations s - 1, score := score s - 100,
          redo_stack := redo_stack s @ [Complete col cards turned], moves := moves s + 1\<rparr>))"
| "undo_entry (Move from to moved turned) s =
     (if \<not> to < length (tableau_refs s) then Threw s
      else if \<not> from < length (tableau_refs s)
      then Threw (s\<lparr>tableau_refs := pop_cards to (length moved) (tableau_refs s)\<rparr>)
      else Returned ()
        ((turn_in from turned False
            (s\<lparr>tableau_refs :=
                 push_cards from moved (pop_cards to (length moved) (tableau_refs s))\<rparr>))
         \<lparr>redo_stack := redo_stack s @ [Move from to moved turned],
          moves := moves s + 1\<rparr>))"
| "undo_entry (Deal dealt) s = finish_undo_deal (Deal dealt) (undo_deal 10 s)"

text \<open>\<^verbatim>\<open>undo()\<close>: \<^verbatim>\<open>h = state.history.pop(); if (!h) return;\<close> and the branch on \<^verbatim>\<open>h.t\<close>.\<close>

definition undo :: "state \<Rightarrow> unit outcome" where
  "undo s =
     (if history s = [] then Returned () s
      else undo_entry (last (history s)) (s\<lparr>history := butlast (history s)\<rparr>))"

text \<open>
  The loop of \<^verbatim>\<open>redo\<close> for a deal,
  \<^verbatim>\<open>for (c=0; c<10; c++) { card = state.stock.shift(); card.faceUp = true;
  state.tableau[c].push(card); }\<close>, with \<open>n\<close> rounds left: it throws on an empty stock,
  and at a column the tableau does not have (the card is then already off the stock and
  face-up).
\<close>

fun redo_deal :: "nat \<Rightarrow> nat \<Rightarrow> state \<Rightarrow> unit outcome" where
  "redo_deal 0 c s = Returned () s"
| "redo_deal (Suc n) c s =
     (if stock_refs s = [] then Threw s
      else if \<not> c < length (tableau_refs s)
      then Threw (s\<lparr>stock_refs := tl (stock_refs s),
                    store := set_faceUp (hd (stock_refs s)) True (store s)\<rparr>)
      else redo_deal n (Suc c)
             (s\<lparr>stock_refs := tl (stock_refs s),
                store := set_faceUp (hd (stock_refs s)) True (store s),
                tableau_refs := (tableau_refs s)[c := tableau_refs s ! c @ [hd (stock_refs s)]]\<rparr>))"

fun finish_redo_deal :: "entry \<Rightarrow> unit outcome \<Rightarrow> unit outcome" where
  "finish_redo_deal h (Returned u s) =
     Returned () (s\<lparr>dealsRemaining := dealsRemaining s - 1,
                    history := history s @ [h], moves := moves s + 1\<rparr>)"
| "finish_redo_deal h (Threw s) = Threw s"

text \<open>The branches of \<^verbatim>\<open>redo\<close> on \<^verbatim>\<open>h.t\<close>, on the state with \<^verbatim>\<open>h\<close> popped.\<close>

fun redo_entry :: "entry \<Rightarrow> state \<Rightarrow> unit outcome" where
  "redo_entry (Complete col cards turned) s =
     (if \<not> col < length (tableau_refs s) then Threw s
      else Returned ()
        ((turn_in col turned True (s\<lparr>tableau_refs := pop_cards col 13 (tableau_refs s)\<rparr>))
         \<lparr>foundation_refs := foundation_refs s @ cards,
          foundations := foundations s + 1, score := score s + 100,
          history := history s @ [Complete col cards turned], moves := moves s + 1\<rparr>))"
| "redo_entry (Move from to moved turned) s =
     (if \<not> from < length (tableau_refs s) then Threw s
      else if \<not> to < length (tableau_refs s)
      then Threw (s\<lparr>tableau_refs := pop_cards from (length moved) (tableau_refs s)\<rparr>)
      else Returned ()
        ((turn_in from turned True
            (s\<lparr>tableau_refs :=
                 push_cards to moved (pop_cards from (length moved) (tableau_refs s))\<rparr>))
         \<lparr>history := history s @ [Move from to moved turned],
          moves := moves s + 1\<rparr>))"
| "redo_entry (Deal dealt) s = finish_redo_deal (Deal dealt) (redo_deal 10 0 s)"

text \<open>\<^verbatim>\<open>redo()\<close>\<close>

definition redo :: "state \<Rightarrow> unit outcome" where
  "redo s =
     (if redo_stack s = [] then Returned () s
      else redo_entry (last (redo_stack s)) (s\<lparr>redo_stack := butlast (redo_stack s)\<rparr>))"

section \<open>Sequences of operations\<close>

text \<open>
  The operations the user interface calls. A thrown \<^verbatim>\<open>TypeError\<close> ends the event handler
  and the game goes on from the state it left.
\<close>

datatype operation =
    NewGame "js_string option" js_string "bool option"
  | DoMove nat int nat
  | DealRow
  | Undo
  | Redo

fun apply_op :: "state \<Rightarrow> operation \<Rightarrow> state" where
  "apply_op s (NewGame d sd a) = newGame d sd a s"
| "apply_op s (DoMove from startIndex to) = state_of (doMove from startIndex to s)"
| "apply_op s DealRow = state_of (dealRow s)"
| "apply_op s Undo = state_of (undo s)"
| "apply_op s Redo = state_of (redo s)"

definition run :: "operation list \<Rightarrow> state \<Rightarrow> state" where
  "run ops s = foldl apply_op s ops"

section \<open>Inventory verification\<close>

text \<open>
  \<^verbatim>\<open>verifyInventory\<close> of \<^verbatim>\<open>logic.js\<close>. \<^verbatim>\<open>loc\<close> starts as 104 times \<^verbatim>\<open>null\<close>; a write
  beyond its end extends the array and leaves holes, which read as \<^verbatim>\<open>undefined\<close>. The
  counters \<^verbatim>\<open>rankCounts\<close> and \<^verbatim>\<open>suitCounts\<close> are filled but never read, and
  \<^verbatim>\<open>notes\<close> is text; they are left out.
\<close>

datatype place = InTableau | InStock | InFoundations

datatype slot = Null | Hole | At place

definition assign :: "slot list \<Rightarrow> nat \<Rightarrow> slot \<Rightarrow> slot list" where
  "assign loc i v =
     (if i < length loc then loc[i := v] else loc @ replicate (i - length loc) Hole @ [v])"

text \<open>
  \<^verbatim>\<open>place(card, where)\<close> on the pair of \<^verbatim>\<open>loc\<close> and \<^verbatim>\<open>duplicates\<close>:
  \<^verbatim>\<open>loc[card.id] !== null\<close> holds for a hole and beyond the end too.
\<close>

fun place_card :: "place \<Rightarrow> slot list \<times> nat list \<Rightarrow> card \<Rightarrow> slot list \<times> nat list" where
  "place_card w (loc, dups) c =
     (assign loc (id_card c) (At w),
      if id_card c < length loc \<and> loc ! id_card c = Null then dups else dups @ [id_card c])"

record inventory =
  ok :: bool
  duplicates :: "nat list"
  missing :: "nat list"
  counts_total :: int
  counts_tableau :: int
  counts_stock :: int
  counts_foundations :: int
  expectedTotal :: int
  inv_includeAces :: bool

fun report_logic :: "state \<Rightarrow> slot list \<times> nat list \<Rightarrow> inventory" where
  "report_logic s (loc, dups) =
     \<lparr>ok = (dups = [] \<and> filter (\<lambda>i. loc ! i = Null) [0..<length loc] = [] \<and>
            int (length (concat (tableau s) @ stock s @ foundationsCards s)) =
              (if includeAces s then 104 else 96) \<and>
            int (length (concat (tableau s))) + int (length (stock s)) +
              int (length (foundationsCards s)) = (if includeAces s then 104 else 96)),
      duplicates = dups,
      missing = filter (\<lambda>i. loc ! i = Null) [0..<length loc],
      counts_total = int (length (concat (tableau s) @ stock s @ foundationsCards s)),
      counts_tableau = int (length (concat (tableau s))),
      counts_stock = int (length (stock s)),
      counts_foundations = int (length (foundationsCards s)),
      expectedTotal = (if includeAces s then 104 else 96),
      inv_includeAces = includeAces s\<rparr>"

definition verifyInventory_logic :: "state \<Rightarrow> inventory" where
  "verifyInventory_logic s =
     report_logic s
       (foldl (place_card InFoundations)
          (foldl (place_card InStock)
             (foldl (place_card InTableau) (replicate 104 Null, []) (concat (tableau s)))
             (stock s))
          (foundationsCards s))"

text \<open>
  \<^verbatim>\<open>verifyInventory\<close> of \<^verbatim>\<open>validation.js\<close>, the one the user interface imports. Each string
  pushed on \<^verbatim>\<open>issues\<close> is a constructor here, in the order of the source; \<^verbatim>\<open>notes\<close> is
  left out. \<^verbatim>\<open>duplicates\<close> holds the id of every card whose id was seen before.
\<close>

datatype issue =
    TotalCount int int
  | DuplicateIds "nat list"
  | SuitKinds nat nat
  | SuitCounts int
  | RankCount int int
  | AceCount int
  | DealsCount int int
  | FoundationsCount int int
  | TopFaceDown nat

fun seen_dups :: "nat list \<Rightarrow> nat list \<Rightarrow> card list \<Rightarrow> nat list" where
  "seen_dups seen dups [] = dups"
| "seen_dups seen dups (c # cs) =
     (if id_card c \<in> set seen then seen_dups seen (dups @ [id_card c]) cs
      else seen_dups (id_card c # seen) dups cs)"

definition suitCount :: "card list \<Rightarrow> suit \<Rightarrow> int" where
  "suitCount cs st = int (length (filter (\<lambda>c. suit c = st) cs))"

definition rankCount :: "card list \<Rightarrow> int \<Rightarrow> int" where
  "rankCount cs r = int (length (filter (\<lambda>c. rank c = r) cs))"

definition suit_issues :: "js_string \<Rightarrow> bool \<Rightarrow> card list \<Rightarrow> issue list" where
  "suit_issues diff aces cs =
     (let suitKeys = remdups (map suit cs) in
      if diff = lit ''1-suit'' then
        (if length suitKeys \<noteq> 1 then [SuitKinds 1 (length suitKeys)]
         else if suitCount cs (suitKeys ! 0) \<noteq> (if aces then 8 * 13 else 8 * 12)
         then [SuitCounts (if aces then 8 * 13 else 8 * 12)] else [])
      else if diff = lit ''2-suit'' then
        (if length suitKeys \<noteq> 2 then [SuitKinds 2 (length suitKeys)]
         else if \<not> list_all (\<lambda>k. suitCount cs k = (if aces then 4 * 13 else 4 * 12)) suitKeys
         then [SuitCounts (if aces then 4 * 13 else 4 * 12)] else [])
      else
        (if length suitKeys \<noteq> 4 then [SuitKinds 4 (length suitKeys)]
         else if \<not> list_all (\<lambda>k. suitCount cs k = (if aces then 2 * 13 else 2 * 12)) suitKeys
         then [SuitCounts (if aces then 2 * 13 else 2 * 12)] else []))"

definition rank_issues :: "bool \<Rightarrow> card list \<Rightarrow> issue list" where
  "rank_issues aces cs =
     concat (map (\<lambda>r. if rankCount cs r \<noteq> 8 then [RankCount r (rankCount cs r)] else []) [2..13]) @
     (if (if aces then rankCount cs 1 \<noteq> 8 else rankCount cs 1 \<noteq> 0)
      then [AceCount (rankCount cs 1)] else [])"

definition top_issues :: "card list list \<Rightarrow> issue list" where
  "top_issues cols =
     concat (map (\<lambda>i. if cols ! i \<noteq> [] \<and> \<not> faceUp (last (cols ! i)) then [TopFaceDown (i + 1)]
                        else [])
               [0..<length cols])"

definition issues :: "state \<Rightarrow> issue list" where
  "issues s =
     (let cs = concat (tableau s) @ stock s @ foundationsCards s;
          expected = (if includeAces s then 104 else 96);
          runLen = (if includeAces s then 13 else 12);
          diff = (if difficulty s = lit ''1'' then lit ''1-suit''
                  else if difficulty s = lit ''2'' then lit ''2-suit'' else difficulty s);
          dups = seen_dups [] [] cs;
          expectedDeals = (int (length (stock s)) + 9) div 10
      in (if int (length cs) \<noteq> expected then [TotalCount (int (length cs)) expected] else []) @
         (if length dups > 0 then [DuplicateIds dups] else []) @
         suit_issues diff (includeAces s) cs @
         rank_issues (includeAces s) cs @
         (if dealsRemaining s \<noteq> expectedDeals then [DealsCount (dealsRemaining s) expectedDeals]
          else []) @
         (if int (length (foundationsCards s)) \<noteq> foundations s * runLen
          then [FoundationsCount (int (length (foundationsCards s))) (foundations s * runLen)]
          else []) @
         top_issues (tableau s))"

definition verifyInventory_validation :: "state \<Rightarrow> inventory" where
  "verifyInventory_validation s =
     \<lparr>ok = (issues s = []),
      duplicates = seen_dups [] [] (concat (tableau s) @ stock s @ foundationsCards s),
      missing = [],
      counts_total = int (length (concat (tableau s) @ stock s @ foundationsCards s)),
      counts_tableau = int (length (concat (tableau s))),
      counts_stock = int (length (stock s)),
      counts_foundations = int (length (foundationsCards s)),
      expectedTotal = (if includeAces s then 104 else 96),
      inv_includeAces = includeAces s\<rparr>"

section \<open>Properties stated over the state\<close>

text \<open>Every card of the game, and the conservation invariant of the specification.\<close>

definition all_cards :: "state \<Rightarrow> card list" where
  "all_cards s = concat (tableau s) @ stock s @ foundationsCards s"

definition conserved :: "state \<Rightarrow> bool" where
  "conserved s \<longleftrightarrow>
     int (length (all_cards s)) = (if includeAces s then 104 else 96) \<and>
     distinct (map id_card (all_cards s))"

text \<open>The condition \<^verbatim>\<open>doMove\<close> tests on the pair \<^verbatim>\<open>a=src[i], b=src[i-1]\<close>.\<close>

definition pair_ok :: "card list \<Rightarrow> nat \<Rightarrow> bool" where
  "pair_ok src i \<longleftrightarrow>
     faceUp (src ! i) \<and> faceUp (src ! (i - 1)) \<and> rank (src ! i) + 1 = rank (src ! (i - 1)) \<and>
     suit (src ! i) = suit (src ! (i - 1))"

text \<open>
  When the last entry of \<^verbatim>\<open>history\<close> describes the state it sits in. \<open>turned_fits\<close>: the
  card recorded as turned is the face-up top of the column, and no card below it carries
  its id. A move entry: the cards of the entry are, field by field, the top of the
  destination (after \<^verbatim>\<open>doMove\<close> they are clones, not the objects of the column). A deal
  entry: ten columns, each with a face-up top. A complete entry of 13 cards: the cards are
  the end of the foundations list and their ids occur nowhere before it.
\<close>

definition turned_fits :: "card list \<Rightarrow> card option \<Rightarrow> bool" where
  "turned_fits col turned =
     (case turned of None \<Rightarrow> True
      | Some t \<Rightarrow> col \<noteq> [] \<and> faceUp (last col) \<and> id_card (last col) = id_card t \<and>
                  id_card t \<notin> set (map id_card (butlast col)))"

fun entry_fits :: "state \<Rightarrow> entry \<Rightarrow> bool" where
  "entry_fits s (Move from to moved turned) =
     (from < length (tableau s) \<and> to < length (tableau s) \<and> from \<noteq> to \<and>
      length moved \<le> length (tableau s ! to) \<and>
      drop (length (tableau s ! to) - length moved) (tableau s ! to) = cards_of (store s) moved \<and>
      turned_fits (tableau s ! from) (map_option (nth (store s)) turned))"
| "entry_fits s (Deal dealt) =
     (length (tableau s) = 10 \<and> list_all (\<lambda>col. col \<noteq> [] \<and> faceUp (last col)) (tableau s))"
| "entry_fits s (Complete col cards turned) =
     (col < length (tableau s) \<and> length cards = 13 \<and>
      length cards \<le> length (foundationsCards s) \<and>
      drop (length (foundationsCards s) - length cards) (foundationsCards s) =
        cards_of (store s) cards \<and>
      list_all (\<lambda>c. id_card c \<notin> set (map id_card (cards_of (store s) cards)))
        (take (length (foundationsCards s) - length cards) (foundationsCards s)) \<and>
      turned_fits (tableau s ! col) (map_option (nth (store s)) turned))"

text \<open>The entries \<^verbatim>\<open>completeTopRun\<close> pushes.\<close>

fun is_complete :: "entry \<Rightarrow> bool" where
  "is_complete (Complete col cards turned) = True"
| "is_complete e = False"

section \<open>A game played from the seed test1\<close>

text \<open>
  The 1-suit game of seed \<^verbatim>\<open>test1\<close> without aces (the configuration the module starts in),
  as \<^verbatim>\<open>newGame\<close> deals it, and ten operations that leave a run one move from complete.
  The store lists the 96 cards in the order of the columns, then the stock.
\<close>

definition spade :: "nat \<Rightarrow> int \<Rightarrow> bool \<Rightarrow> card" where
  "spade i r u = \<lparr>id_card = i, suit = SPADE, rank = r, faceUp = u\<rparr>"

definition game0 :: state where
  "game0 =
     \<lparr>difficulty = lit ''1-suit'', seed = lit ''test1'', rng = Some 961066589, includeAces = False,
      store =
       [spade 35 10 False, spade 85 8 False, spade 76 12 False, spade 59 8 False,
        spade 72 8 True, spade 50 12 False, spade 103 13 False, spade 102 12 False,
        spade 48 10 False, spade 55 4 True, spade 95 5 False, spade 37 12 False,
        spade 2 3 False, spade 38 13 False, spade 77 13 True, spade 42 4 False,
        spade 29 4 False, spade 61 10 False, spade 28 3 False, spade 46 8 True,
        spade 101 11 False, spade 70 6 False, spade 22 10 False, spade 90 13 False,
        spade 30 5 True, spade 51 13 False, spade 73 9 False, spade 33 8 False,
        spade 89 12 False, spade 66 2 True, spade 47 9 False, spade 100 10 False,
        spade 27 2 False, spade 64 13 True, spade 88 11 False, spade 21 9 False,
        spade 98 8 False, spade 92 2 True, spade 11 12 False, spade 4 5 False,
        spade 75 11 False, spade 80 3 True, spade 86 9 False, spade 20 8 False,
        spade 8 9 False, spade 68 4 True, spade 93 3 False, spade 87 10 False,
        spade 45 7 False, spade 1 2 False, spade 74 10 False, spade 83 6 False,
        spade 41 3 False, spade 79 2 False, spade 16 4 False, spade 12 13 False,
        spade 23 11 False, spade 31 6 False, spade 63 12 False, spade 19 7 False,
        spade 60 9 False, spade 62 11 False, spade 25 13 False, spade 24 12 False,
        spade 15 3 False, spade 32 7 False, spade 58 7 False, spade 99 9 False,
        spade 7 8 False, spade 36 11 False, spade 82 5 False, spade 94 4 False,
        spade 14 2 False, spade 34 9 False, spade 10 11 False, spade 56 5 False,
        spade 57 6 False, spade 9 10 False, spade 69 5 False, spade 44 6 False,
        spade 71 7 False, spade 43 5 False, spade 97 7 False, spade 40 2 False,
        spade 3 4 False, spade 81 4 False, spade 53 2 False, spade 49 11 False,
        spade 6 7 False, spade 5 6 False, spade 96 6 False, spade 54 3 False,
        spade 84 7 False, spade 17 5 False, spade 18 6 False, spade 67 3 False],
      tableau_refs =
       [[0..<5],
        [5..<10],
        [10..<15],
        [15..<20],
        [20..<25],
        [25..<30],
        [30..<34],
        [34..<38],
        [38..<42],
        [42..<46]],
      stock_refs = [46..<96],
      dealsRemaining = 5, foundations = 0, moves = 0, score = 500,
      history = [],
      redo_stack = [], won = False, foundation_refs = []\<rparr>"

definition game_test1 :: state where
  "game_test1 = newGame None (lit ''test1'') None state_init"

definition play10 :: "operation list" where
  "play10 = [DoMove 1 4 4, DealRow, DoMove 3 5 0, DealRow, DoMove 3 4 4, DoMove 4 6 0,
            DoMove 1 5 0, DoMove 4 4 0, DoMove 0 7 2, DoMove 0 5 2]"

text \<open>
  The state after \<open>play10\<close>: a queen-to-2 run in column 3, a king on top of column 5. The
  addresses from 96 on are the clones the eight moves have made.
\<close>

definition game10 :: state where
  "game10 =
     \<lparr>difficulty = lit ''1-suit'', seed = lit ''test1'', rng = Some 961066589, includeAces = False,
      store =
       [spade 35 10 False, spade 85 8 False, spade 76 12 False, spade 59 8 False,
        spade 72 8 True, spade 50 12 False, spade 103 13 False, spade 102 12 False,
        spade 48 10 True, spade 55 4 True, spade 95 5 False, spade 37 12 False,
        spade 2 3 False, spade 38 13 False, spade 77 13 True, spade 42 4 False,
        spade 29 4 False, spade 61 10 False, spade 28 3 True, spade 46 8 True,
        spade 101 11 False, spade 70 6 False, spade 22 10 False, spade 90 13 True,
        spade 30 5 True, spade 51 13 False, spade 73 9 False, spade 33 8 False,
        spade 89 12 False, spade 66 2 True, spade 47 9 False, spade 100 10 False,
        spade 27 2 False, spade 64 13 True, spade 88 11 False, spade 21 9 False,
        spade 98 8 False, spade 92 2 True, spade 11 12 False, spade 4 5 False,
        spade 75 11 False, spade 80 3 True, spade 86 9 False, spade 20 8 False,
        spade 8 9 False, spade 68 4 True, spade 93 3 True, spade 87 10 True, spade 45 7 True,
        spade 1 2 True, spade 74 10 True, spade 83 6 True, spade 41 3 True, spade 79 2 True,
        spade 16 4 True, spade 12 13 True, spade 23 11 True, spade 31 6 True,
        spade 63 12 True, spade 19 7 True, spade 60 9 True, spade 62 11 True,
        spade 25 13 True, spade 24 12 True, spade 15 3 True, spade 32 7 True,
        spade 58 7 False, spade 99 9 False, spade 7 8 False, spade 36 11 False,
        spade 82 5 False, spade 94 4 False, spade 14 2 False, spade 34 9 False,
        spade 10 11 False, spade 56 5 False, spade 57 6 False, spade 9 10 False,
        spade 69 5 False, spade 44 6 False, spade 71 7 False, spade 43 5 False,
        spade 97 7 False, spade 40 2 False, spade 3 4 False, spade 81 4 False,
        spade 53 2 False, spade 49 11 False, spade 6 7 False, spade 5 6 False,
        spade 96 6 False, spade 54 3 False, spade 84 7 False, spade 17 5 False,
        spade 18 6 False, spade 67 3 False, spade 55 4 True, spade 1 2 True, spade 46 8 True,
        spade 19 7 True, spade 74 10 True, spade 60 9 True, spade 46 8 True, spade 19 7 True,
        spade 31 6 True, spade 30 5 True, spade 55 4 True, spade 23 11 True,
        spade 74 10 True, spade 60 9 True, spade 46 8 True, spade 19 7 True, spade 31 6 True,
        spade 30 5 True, spade 55 4 True, spade 93 3 True, spade 1 2 True],
      tableau_refs =
       [[0..<5],
        [5, 6, 7, 8, 47],
        [10, 11, 12, 13, 14, 48, 58, 56, 50, 60, 19, 59, 57, 24, 9, 46, 49],
        [15..<19],
        [20..<24],
        [25, 26, 27, 28, 29, 51, 61],
        [30, 31, 32, 33, 52, 62],
        [34, 35, 36, 37, 53, 63],
        [38, 39, 40, 41, 54, 64],
        [42, 43, 44, 45, 55, 65]],
      stock_refs = [66..<96],
      dealsRemaining = 3, foundations = 0, moves = 10, score = 490,
      history =
       [Move 1 4 [96] (Some 8),
        Deal [46..<56],
        Move 3 0 [97] None,
        Deal [56..<66],
        Move 3 4 [98, 99] (Some 18),
        Move 4 0 [100..<104] None,
        Move 1 0 [104] None,
        Move 4 0 [105, 106] (Some 23),
        Move 0 2 [107..<115] None,
        Move 0 2 [115, 116] None],
      redo_stack = [], won = False, foundation_refs = []\<rparr>"

text \<open>
  A column for \<^verbatim>\<open>tryComplete\<close>: king down to 3, a face-down 9, and the 2 on top; and a
  state whose first column holds these thirteen cards.
\<close>

definition interleaved :: "card list" where
  "interleaved =
     [spade 12 13 True, spade 11 12 True, spade 10 11 True, spade 9 10 True, spade 8 9 True,
      spade 7 8 True, spade 6 7 True, spade 5 6 True, spade 4 5 True, spade 3 4 True,
      spade 2 3 True, spade 21 9 False, spade 1 2 True]"

definition interleaved_state :: state where
  "interleaved_state =
     state_init\<lparr>store := interleaved, tableau_refs := (replicate 10 [])[0 := [0..<13]]\<rparr>"

section \<open>The seeded deal\<close>

text \<open>
  The shuffle permutes its array: the index \<^verbatim>\<open>j\<close> it draws never exceeds \<^verbatim>\<open>i\<close>.
\<close>

lemma shuffle_swap_mset:
  assumes "i < length arr"
  shows "mset (shuffle_swap i arr r) = mset arr"
proof -
  have "uint r < 4294967296" using uint_bounded[of r] by simp
  then have "uint r * (int i + 1) < 4294967296 * (int i + 1)"
    by (intro mult_strict_right_mono) simp_all
  moreover have "x < 4294967296 * y \<Longrightarrow> x div 4294967296 < y" for x y :: int
    by arith
  ultimately have "(uint r * (int i + 1)) div 4294967296 < int i + 1"
    by blast
  then have "nat ((uint r * (int i + 1)) div 4294967296) < length arr"
    using assms by linarith
  then show ?thesis
    using assms by (simp add: shuffle_swap_def Let_def mset_swap)
qed

lemma shuffle_from_mset:
  "k < length arr \<or> k = 0 \<Longrightarrow> mset (fst (shuffle_from k arr a)) = mset arr"
proof (induction k arbitrary: arr a)
  case 0
  then show ?case by simp
next
  case (Suc k)
  obtain r a' where m: "mulberry32 a = (r, a')" by (cases "mulberry32 a")
  have len: "length (shuffle_swap (Suc k) arr r) = length arr"
    by (simp add: shuffle_swap_def Let_def)
  have "mset (fst (shuffle_from k (shuffle_swap (Suc k) arr r) a')) =
        mset (shuffle_swap (Suc k) arr r)"
    using Suc.prems by (intro Suc.IH) (simp add: len)
  also have "\<dots> = mset arr"
    using Suc.prems by (intro shuffle_swap_mset) simp
  finally show ?case by (simp add: m)
qed

lemma shuffle_mset: "mset (fst (shuffle arr a)) = mset arr"
  unfolding shuffle_def by (rule shuffle_from_mset) (cases arr; simp)

lemma shuffle_length: "length (fst (shuffle arr a)) = length arr"
  using shuffle_mset[of arr a] by (rule mset_eq_length)

lemma shuffle_set: "set (fst (shuffle arr a)) = set arr"
  using shuffle_mset[of arr a] by (rule mset_eq_setD)

lemma diff_label_cases:
  "diff_label d = lit ''1-suit'' \<or> diff_label d = lit ''2-suit'' \<or> diff_label d = lit ''4-suit''"
  by (simp add: diff_label_def)

lemma createDeck_length:
  "length (createDeck (diff_label d) aces) = (if aces then 104 else 96)"
  using diff_label_cases[of d]
  by (elim disjE; cases aces) (simp_all, code_simp+)

lemma createDeck_faceDown:
  "\<forall>c\<in>set (createDeck (diff_label d) aces). \<not> faceUp c"
  using diff_label_cases[of d]
  by (elim disjE; cases aces) (simp_all, code_simp+)

lemma deal_cols_stop:
  "\<not> (c < 10 \<and> idx < length rem) \<Longrightarrow> deal_cols p c rem idx cols = (idx, cols)"
  by (subst deal_cols.simps) auto

lemma deal_cols_skip:
  "c < 10 \<Longrightarrow> idx < length rem \<Longrightarrow> p = 5 \<and> c \<ge> 4 \<Longrightarrow>
   deal_cols p c rem idx cols = deal_cols p (c + 1) rem idx cols"
  by (subst deal_cols.simps) auto

lemma deal_cols_deal:
  "c < 10 \<Longrightarrow> idx < length rem \<Longrightarrow> \<not> (p = 5 \<and> c \<ge> 4) \<Longrightarrow>
   deal_cols p c rem idx cols =
     deal_cols p (c + 1) rem (idx + 1) (cols[c := cols ! c @ [rem ! idx]])"
  by (subst deal_cols.simps) auto

lemma deal_passes_stop:
  "\<not> (p < 6 \<and> idx < length rem) \<Longrightarrow> deal_passes p rem idx cols = cols"
  by (subst deal_passes.simps) auto

lemma deal_passes_step:
  "p < 6 \<Longrightarrow> idx < length rem \<Longrightarrow>
   deal_passes p rem idx cols =
     deal_passes (p + 1) rem (fst (deal_cols p 0 rem idx cols)) (snd (deal_cols p 0 rem idx cols))"
  by (subst deal_passes.simps) (auto split: prod.splits)

lemma deal_cols_shape:
  "length cols = 10 \<Longrightarrow> length rem' = length rem \<Longrightarrow> map length cols' = map length cols \<Longrightarrow>
   fst (deal_cols p c rem' idx cols') = fst (deal_cols p c rem idx cols) \<and>
   map length (snd (deal_cols p c rem' idx cols')) = map length (snd (deal_cols p c rem idx cols)) \<and>
   length (snd (deal_cols p c rem idx cols)) = 10"
proof (induction p c rem idx cols arbitrary: cols' rule: deal_cols.induct)
  case (1 pass c remaining idx cols)
  have len': "length cols' = 10"
    using "1.prems" by (metis length_map)
  show ?case
  proof (cases "c < 10 \<and> idx < length remaining")
    case False
    then show ?thesis
      using "1.prems" by (simp add: deal_cols_stop)
  next
    case True
    show ?thesis
    proof (cases "pass = 5 \<and> c \<ge> 4")
      case skip: True
      have "fst (deal_cols pass (c + 1) rem' idx cols') = fst (deal_cols pass (c + 1) remaining idx cols) \<and>
            map length (snd (deal_cols pass (c + 1) rem' idx cols')) =
              map length (snd (deal_cols pass (c + 1) remaining idx cols)) \<and>
            length (snd (deal_cols pass (c + 1) remaining idx cols)) = 10"
        using True skip "1.prems" by (intro "1.IH"(1)) simp_all
      then show ?thesis
        using True "1.prems"(2)
        by (simp add: deal_cols_skip[OF _ _ skip])
    next
      case deal: False
      let ?cols1 = "cols[c := cols ! c @ [remaining ! idx]]"
      let ?cols1' = "cols'[c := cols' ! c @ [rem' ! idx]]"
      have "length (cols' ! c) = length (cols ! c)"
        using True "1.prems" len' by (metis nth_map)
      then have shape: "map length ?cols1' = map length ?cols1"
        using "1.prems" by (simp add: map_update)
      have "fst (deal_cols pass (c + 1) rem' (idx + 1) ?cols1') =
              fst (deal_cols pass (c + 1) remaining (idx + 1) ?cols1) \<and>
            map length (snd (deal_cols pass (c + 1) rem' (idx + 1) ?cols1')) =
              map length (snd (deal_cols pass (c + 1) remaining (idx + 1) ?cols1)) \<and>
            length (snd (deal_cols pass (c + 1) remaining (idx + 1) ?cols1)) = 10"
        using True deal "1.prems" shape by (intro "1.IH"(2)) simp_all
      then show ?thesis
        using True "1.prems"(2)
        by (simp add: deal_cols_deal[OF _ _ deal])
    qed
  qed
qed

lemma deal_passes_shape:
  "length cols = 10 \<Longrightarrow> length rem' = length rem \<Longrightarrow> map length cols' = map length cols \<Longrightarrow>
   map length (deal_passes p rem' idx cols') = map length (deal_passes p rem idx cols)"
proof (induction p rem idx cols arbitrary: cols' rule: deal_passes.induct)
  case (1 pass remaining idx cols)
  show ?case
  proof (cases "pass < 6 \<and> idx < length remaining")
    case False
    then show ?thesis
      using "1.prems" by (simp add: deal_passes_stop)
  next
    case True
    let ?d = "deal_cols pass 0 remaining idx cols"
    let ?d' = "deal_cols pass 0 rem' idx cols'"
    have sh: "fst ?d' = fst ?d \<and> map length (snd ?d') = map length (snd ?d) \<and> length (snd ?d) = 10"
      using deal_cols_shape[OF "1.prems", of pass 0 idx] by simp
    have "map length (deal_passes (pass + 1) rem' (fst ?d) (snd ?d')) =
          map length (deal_passes (pass + 1) remaining (fst ?d) (snd ?d))"
      using sh "1.prems" by (intro "1.IH"[OF True]) (simp_all add: prod_eq_iff)
    then show ?thesis
      using True sh "1.prems"(2) by (simp add: deal_passes_step)
  qed
qed

lemma deal_cols_all:
  "length cols = 10 \<Longrightarrow> \<forall>col\<in>set cols. \<forall>x\<in>set col. Q x \<Longrightarrow> \<forall>x\<in>set rem. Q x \<Longrightarrow>
   \<forall>col\<in>set (snd (deal_cols p c rem idx cols)). \<forall>x\<in>set col. Q x"
proof (induction p c rem idx cols rule: deal_cols.induct)
  case (1 pass c remaining idx cols)
  show ?case
  proof (cases "c < 10 \<and> idx < length remaining")
    case False
    then show ?thesis using "1.prems" by (simp add: deal_cols_stop)
  next
    case True
    show ?thesis
    proof (cases "pass = 5 \<and> c \<ge> 4")
      case skip: True
      have "\<forall>col\<in>set (snd (deal_cols pass (c + 1) remaining idx cols)). \<forall>x\<in>set col. Q x"
        using True skip "1.prems" by (intro "1.IH"(1)) simp_all
      then show ?thesis using True by (simp add: deal_cols_skip[OF _ _ skip])
    next
      case deal: False
      let ?cols1 = "cols[c := cols ! c @ [remaining ! idx]]"
      have "\<forall>x\<in>set (cols ! c @ [remaining ! idx]). Q x"
        using True "1.prems" by (auto simp: all_set_conv_all_nth)
      then have "\<forall>col\<in>set ?cols1. \<forall>x\<in>set col. Q x"
        using "1.prems"(2) by (metis insertE set_update_subset_insert subsetD)
      then have "\<forall>col\<in>set (snd (deal_cols pass (c + 1) remaining (idx + 1) ?cols1)). \<forall>x\<in>set col. Q x"
        using True deal "1.prems" by (intro "1.IH"(2)) simp_all
      then show ?thesis using True by (simp add: deal_cols_deal[OF _ _ deal])
    qed
  qed
qed

lemma deal_passes_all:
  "length cols = 10 \<Longrightarrow> \<forall>col\<in>set cols. \<forall>x\<in>set col. Q x \<Longrightarrow> \<forall>x\<in>set rem. Q x \<Longrightarrow>
   \<forall>col\<in>set (deal_passes p rem idx cols). \<forall>x\<in>set col. Q x"
proof (induction p rem idx cols rule: deal_passes.induct)
  case (1 pass remaining idx cols)
  show ?case
  proof (cases "pass < 6 \<and> idx < length remaining")
    case False
    then show ?thesis using "1.prems" by (simp add: deal_passes_stop)
  next
    case True
    let ?d = "deal_cols pass 0 remaining idx cols"
    have len: "length (snd ?d) = 10"
      using deal_cols_shape[OF "1.prems"(1) refl refl, of pass 0 remaining idx] by simp
    have "\<forall>col\<in>set (snd ?d). \<forall>x\<in>set col. Q x"
      using deal_cols_all[OF "1.prems", of pass 0 idx] by simp
    then have "\<forall>col\<in>set (deal_passes (pass + 1) remaining (fst ?d) (snd ?d)). \<forall>x\<in>set col. Q x"
      using len "1.prems" by (intro "1.IH"[OF True]) (simp_all add: prod_eq_iff)
    then show ?thesis using True by (simp add: deal_passes_step)
  qed
qed


lemma flip_top_length: "length (flip_top col) = length col"
  by (simp add: flip_top_def)

lemma flip_top_faces:
  "col \<noteq> [] \<Longrightarrow> \<forall>x\<in>set col. \<not> faceUp x \<Longrightarrow>
   faceUp (last (flip_top col)) \<and> (\<forall>x\<in>set (butlast (flip_top col)). \<not> faceUp x)"
  by (auto simp: flip_top_def dest: in_set_butlastD)

lemma shape_54:
  "map length (deal_passes 0 (replicate 54 (spade 0 1 False)) 0 (replicate 10 [])) =
     [6, 6, 6, 6, 5, 5, 5, 5, 5, 5]"
  by code_simp

lemma shape_46:
  "map length (deal_passes 0 (replicate 46 (spade 0 1 False)) 0 (replicate 10 [])) =
     [5, 5, 5, 5, 5, 5, 4, 4, 4, 4]"
  by code_simp

lemma initial_layout:
  assumes "length deck = (if aces then 104 else 96)" and "\<forall>c\<in>set deck. \<not> faceUp c"
  shows "map length (fst (initialDeal deck a)) =
           (if aces then [6, 6, 6, 6, 5, 5, 5, 5, 5, 5] else [5, 5, 5, 5, 5, 5, 4, 4, 4, 4]) \<and>
         length (fst (snd (initialDeal deck a))) = 50 \<and>
         (\<forall>col\<in>set (fst (initialDeal deck a)).
            col \<noteq> [] \<and> faceUp (last col) \<and> (\<forall>c\<in>set (butlast col). \<not> faceUp c)) \<and>
         (\<forall>c\<in>set (fst (snd (initialDeal deck a))). \<not> faceUp c)"
proof -
  obtain deck' a' where sh: "shuffle deck a = (deck', a')" by (cases "shuffle deck a")
  have len: "length deck' = (if aces then 104 else 96)"
    using shuffle_length[of deck a] sh assms(1) by simp
  have down: "\<forall>c\<in>set deck'. \<not> faceUp c"
    using shuffle_set[of deck a] sh assms(2) by simp
  let ?rem = "drop 50 deck'"
  let ?cols = "deal_passes 0 ?rem 0 (replicate 10 [])"
  have lens: "map length ?cols =
      (if aces then [6, 6, 6, 6, 5, 5, 5, 5, 5, 5] else [5, 5, 5, 5, 5, 5, 4, 4, 4, 4])"
  proof (cases aces)
    case True
    then have "length ?rem = length (replicate 54 (spade 0 1 False))" using len by simp
    then have "map length ?cols =
        map length (deal_passes 0 (replicate 54 (spade 0 1 False)) 0 (replicate 10 []))"
      by (intro deal_passes_shape) simp_all
    then show ?thesis using True shape_54 by simp
  next
    case False
    then have "length ?rem = length (replicate 46 (spade 0 1 False))" using len by simp
    then have "map length ?cols =
        map length (deal_passes 0 (replicate 46 (spade 0 1 False)) 0 (replicate 10 []))"
      by (intro deal_passes_shape) simp_all
    then show ?thesis using False shape_46 by simp
  qed
  have all_down: "\<forall>col\<in>set ?cols. \<forall>x\<in>set col. \<not> faceUp x"
    using down by (intro deal_passes_all) (auto dest: in_set_dropD)
  have nonempty: "\<forall>col\<in>set ?cols. col \<noteq> []"
  proof
    fix col assume "col \<in> set ?cols"
    then have "length col \<in> set (map length ?cols)" by simp
    then show "col \<noteq> []" unfolding lens by (auto split: if_splits)
  qed
  have tab: "fst (initialDeal deck a) = map flip_top ?cols"
    and stk: "fst (snd (initialDeal deck a)) = take 50 deck'"
    by (simp_all add: initialDeal_def sh)
  have "\<forall>col\<in>set (map flip_top ?cols).
          col \<noteq> [] \<and> faceUp (last col) \<and> (\<forall>c\<in>set (butlast col). \<not> faceUp c)"
  proof
    fix col assume "col \<in> set (map flip_top ?cols)"
    then obtain col0 where c0: "col0 \<in> set ?cols" "col = flip_top col0" by auto
    then have "col0 \<noteq> []" "\<forall>x\<in>set col0. \<not> faceUp x" using nonempty all_down by auto
    then show "col \<noteq> [] \<and> faceUp (last col) \<and> (\<forall>c\<in>set (butlast col). \<not> faceUp c)"
      using flip_top_faces[of col0] c0(2) flip_top_length[of col0] by (metis length_0_conv)
  qed
  moreover have "map length (map flip_top ?cols) = map length ?cols"
    by (simp add: flip_top_length comp_def)
  moreover have "\<forall>c\<in>set (take 50 deck'). \<not> faceUp c"
    using down by (auto dest: in_set_takeD)
  moreover have "length (take 50 deck') = 50" using len by simp
  ultimately show ?thesis unfolding tab stk lens[symmetric] by simp
qed

text \<open>
  The objects \<^verbatim>\<open>newGame\<close> stores are read back from the store as they were dealt.
\<close>

lemma cards_of_range: "cards_of (S @ col @ R) [length S..<length S + length col] = col"
proof -
  have "[length S..<length S + length col] = map (\<lambda>i. i + length S) [0..<length col]"
    by (simp add: map_add_upt add.commute)
  then have "cards_of (S @ col @ R) [length S..<length S + length col] =
      map (\<lambda>i. (S @ col @ R) ! (i + length S)) [0..<length col]"
    by (simp only: cards_of_def map_map comp_def)
  also have "\<dots> = map (nth col) [0..<length col]"
    by (rule map_cong) (simp_all add: nth_append)
  also have "\<dots> = col" by (rule map_nth)
  finally show ?thesis .
qed

lemma cards_of_refs_from:
  "map (cards_of (S @ concat tab @ R)) (refs_from (length S) tab) = tab"
proof (induction tab arbitrary: S)
  case Nil
  then show ?case by simp
next
  case (Cons col tab)
  have "map (cards_of ((S @ col) @ concat tab @ R)) (refs_from (length (S @ col)) tab) = tab"
    by (rule Cons.IH)
  moreover have "cards_of (S @ col @ (concat tab @ R)) [length S..<length S + length col] = col"
    by (rule cards_of_range)
  ultimately show ?case by simp
qed

lemma cards_of_old: "\<forall>r\<in>set refs. r < length S \<Longrightarrow> cards_of (S @ R) refs = cards_of S refs"
  by (simp add: cards_of_def nth_append)

lemma new_state_views:
  "tableau (new_state diff sd aces (tab, stk, a) s) = tab \<and>
   stock (new_state diff sd aces (tab, stk, a) s) = stk"
proof -
  have "cards_of ((store s @ concat tab) @ stk @ [])
          [length (store s @ concat tab)..<length (store s @ concat tab) + length stk] = stk"
    by (rule cards_of_range)
  then show ?thesis
    by (simp add: tableau_def stock_def cards_of_refs_from)
qed

lemma newGame_views:
  "tableau (newGame d sd a s) =
     fst (deal_new (shuffle
       (createDeck (diff_label (case d of None \<Rightarrow> difficulty s | Some x \<Rightarrow> x))
          (case a of None \<Rightarrow> includeAces s | Some b \<Rightarrow> b))
       (hashSeed (diff_label (case d of None \<Rightarrow> difficulty s | Some x \<Rightarrow> x) @ lit '':'' @ sd)))) \<and>
   stock (newGame d sd a s) =
     fst (snd (deal_new (shuffle
       (createDeck (diff_label (case d of None \<Rightarrow> difficulty s | Some x \<Rightarrow> x))
          (case a of None \<Rightarrow> includeAces s | Some b \<Rightarrow> b))
       (hashSeed (diff_label (case d of None \<Rightarrow> difficulty s | Some x \<Rightarrow> x) @ lit '':'' @ sd))))) \<and>
   dealsRemaining (newGame d sd a s) = 5 \<and>
   foundations (newGame d sd a s) = 0 \<and>
   foundation_refs (newGame d sd a s) = foundation_refs s \<and>
   (\<exists>new. store (newGame d sd a s) = store s @ new)"
proof -
  let ?diff = "diff_label (case d of None \<Rightarrow> difficulty s | Some x \<Rightarrow> x)"
  let ?aces = "case a of None \<Rightarrow> includeAces s | Some b \<Rightarrow> b"
  obtain tab stk a' where
    deal: "deal_new (shuffle (createDeck ?diff ?aces) (hashSeed (?diff @ lit '':'' @ sd))) =
             (tab, stk, a')"
    by (cases "deal_new (shuffle (createDeck ?diff ?aces) (hashSeed (?diff @ lit '':'' @ sd)))")
  have new: "newGame d sd a s = new_state ?diff sd ?aces (tab, stk, a') s"
    by (simp add: newGame_def start_game_def deal)
  show ?thesis
    unfolding new deal using new_state_views[of ?diff sd ?aces tab stk a' s] by simp
qed

text \<open>The deal of seed \<^verbatim>\<open>test1\<close> in the configuration the module starts in.\<close>

lemma game0_eq: "newGame None (lit ''test1'') None state_init = game0"
  by code_simp

lemma game_test1_eq: "game_test1 = game0"
  by (simp add: game_test1_def game0_eq)

lemma game10_eq: "run play10 game0 = game10"
  by code_simp

lemma run_append: "run (xs @ ys) s = run ys (run xs s)"
  by (simp add: run_def)

text \<open>
  C6, as amended. After \<^verbatim>\<open>newGame\<close>, for every difficulty, seed and prior state: with
  aces the columns 1-4 hold 6 cards and the columns 5-10 hold 5; without aces (96 cards, of
  which 50 still go to the stock) the columns 1-6 hold 5 cards and the columns 7-10 hold 4.
  In both cases the stock has 50 cards, \<^verbatim>\<open>dealsRemaining\<close> is 5, every column is
  non-empty with exactly its top card face-up, and every stock card is face-down.
\<close>

theorem newGame_layout:
  "map length (tableau (newGame d sd a s)) =
     (if (case a of None \<Rightarrow> includeAces s | Some b \<Rightarrow> b)
      then [6, 6, 6, 6, 5, 5, 5, 5, 5, 5] else [5, 5, 5, 5, 5, 5, 4, 4, 4, 4]) \<and>
   length (stock (newGame d sd a s)) = 50 \<and>
   dealsRemaining (newGame d sd a s) = 5 \<and>
   (\<forall>col\<in>set (tableau (newGame d sd a s)).
      col \<noteq> [] \<and> faceUp (last col) \<and> (\<forall>c\<in>set (butlast col). \<not> faceUp c)) \<and>
   (\<forall>c\<in>set (stock (newGame d sd a s)). \<not> faceUp c)"
proof -
  let ?diff = "diff_label (case d of None \<Rightarrow> difficulty s | Some x \<Rightarrow> x)"
  let ?aces = "case a of None \<Rightarrow> includeAces s | Some b \<Rightarrow> b"
  let ?sh = "shuffle (createDeck ?diff ?aces) (hashSeed (?diff @ lit '':'' @ sd))"
  let ?deal = "initialDeal (fst ?sh) (snd ?sh)"
  have len: "length (fst ?sh) = (if ?aces then 104 else 96)"
    by (simp only: shuffle_length createDeck_length)
  have down: "\<forall>c\<in>set (fst ?sh). \<not> faceUp c"
    unfolding shuffle_set by (rule createDeck_faceDown)
  have dn: "deal_new ?sh = ?deal" by (cases ?sh) simp
  have tab: "tableau (newGame d sd a s) = fst ?deal"
    and stk: "stock (newGame d sd a s) = fst (snd ?deal)"
    and dr: "dealsRemaining (newGame d sd a s) = 5"
    using newGame_views[of d sd a s] unfolding dn by blast+
  show ?thesis
    unfolding tab stk dr using initial_layout[OF len down, of "snd ?sh"] by simp
qed

theorem newGame_layout_witness:
  "map length (tableau (newGame None (lit ''test1'') None state_init)) =
     [5, 5, 5, 5, 5, 5, 4, 4, 4, 4] \<and>
   length (stock (newGame None (lit ''test1'') None state_init)) = 50 \<and>
   faceUp (last (tableau (newGame None (lit ''test1'') None state_init) ! 0)) \<and>
   \<not> faceUp (hd (stock (newGame None (lit ''test1'') None state_init)))"
proof -
  let ?g = "newGame None (lit ''test1'') None state_init"
  note layout = newGame_layout[of None "lit ''test1''" None state_init]
  have lens: "map length (tableau ?g) = [5, 5, 5, 5, 5, 5, 4, 4, 4, 4]"
    using layout by (simp add: state_init_def)
  then have "length (tableau ?g) = 10"
    using length_map[of length "tableau ?g"] by simp
  then have "tableau ?g ! 0 \<in> set (tableau ?g)" by simp
  then have top: "faceUp (last (tableau ?g ! 0))" using layout by blast
  have "length (stock ?g) = 50" using layout by blast
  then have "hd (stock ?g) \<in> set (stock ?g)" by (cases "stock ?g") auto
  then have "\<not> faceUp (hd (stock ?g))" using layout by blast
  with lens top layout show ?thesis by blast
qed

text \<open>
  C6, as stated, fails: the 1-suit game of seed \<^verbatim>\<open>test1\<close> in the default configuration
  (no aces) is dealt with column lengths 5, 5, 5, 5, 5, 5, 4, 4, 4, 4.
\<close>

theorem newGame_layout_counterexample:
  "map length (tableau (newGame None (lit ''test1'') None state_init)) \<noteq>
     [6, 6, 6, 6, 5, 5, 5, 5, 5, 5]"
  unfolding game0_eq by code_simp

text \<open>
  Two runs of \<^verbatim>\<open>newGame\<close> with the same difficulty, seed and \<^verbatim>\<open>includeAces\<close> deal
  the same tableau and the same stock, whatever the states they start from. The
  foundations list is not dealt: \<^verbatim>\<open>newGame\<close> does not assign it, and its objects are
  still in the store.
\<close>

lemma newGame_same_deal:
  "tableau (newGame (Some d) sd (Some a) s1) = tableau (newGame (Some d) sd (Some a) s2) \<and>
   stock (newGame (Some d) sd (Some a) s1) = stock (newGame (Some d) sd (Some a) s2)"
  using newGame_views[of "Some d" sd "Some a" s1] newGame_views[of "Some d" sd "Some a" s2]
  by simp

lemma newGame_foundationsCards:
  assumes "\<forall>r\<in>set (foundation_refs s). r < length (store s)"
  shows "foundationsCards (newGame d sd a s) = foundationsCards s"
proof -
  obtain new where "store (newGame d sd a s) = store s @ new"
    and "foundation_refs (newGame d sd a s) = foundation_refs s"
    using newGame_views[of d sd a s] by blast
  then show ?thesis
    using assms by (simp add: foundationsCards_def cards_of_old)
qed

section \<open>Moves and deals\<close>

text \<open>The arrays and their contents.\<close>

lemma length_tableau: "length (tableau s) = length (tableau_refs s)"
  by (simp add: tableau_def)

lemma tableau_nth: "c < length (tableau_refs s) \<Longrightarrow> tableau s ! c = column s c"
  by (simp add: tableau_def column_def)

lemma length_column: "length (column s c) = length (tableau_refs s ! c)"
  by (simp add: column_def cards_of_def)

lemma stock_Nil: "stock s = [] \<longleftrightarrow> stock_refs s = []"
  by (simp add: stock_def cards_of_def)

lemma tableau_no_Nil:
  "(\<forall>col\<in>set (tableau s). col \<noteq> []) \<longleftrightarrow> (\<forall>col\<in>set (tableau_refs s). col \<noteq> [])"
  by (simp add: tableau_def cards_of_def)

lemma tail_ok_pairs: "tail_ok n k src \<longleftrightarrow> (\<forall>i. k < i \<and> i \<le> n \<longrightarrow> pair_ok src i)"
proof (induction n)
  case 0
  then show ?case by simp
next
  case (Suc n)
  show ?case
  proof (cases "Suc n > k")
    case True
    have split: "(\<forall>i. k < i \<and> i \<le> Suc n \<longrightarrow> pair_ok src i) \<longleftrightarrow>
        pair_ok src (Suc n) \<and> (\<forall>i. k < i \<and> i \<le> n \<longrightarrow> pair_ok src i)"
      using True by (auto simp: le_Suc_eq)
    have "tail_ok (Suc n) k src \<longleftrightarrow> pair_ok src (Suc n) \<and> tail_ok n k src"
      using True by (auto simp: pair_ok_def)
    then show ?thesis using Suc split by simp
  next
    case False
    then show ?thesis by auto
  qed
qed

text \<open>
  C5. On a tableau of ten columns, \<^verbatim>\<open>doMove(from, startIndex, to)\<close> returns true exactly
  when \<^verbatim>\<open>from != to\<close>, \<^verbatim>\<open>startIndex\<close> is in range, every adjacent pair of the suffix
  from \<^verbatim>\<open>startIndex\<close> is face-up, of one suit and descending by 1 towards the top, and
  the destination is empty or its top card's rank is the head's rank plus 1.
\<close>

theorem doMove_legal_iff:
  assumes "length (tableau s) = 10" and "from < 10" and "to < 10"
  shows "(\<exists>s'. doMove from startIndex to s = Returned True s') \<longleftrightarrow>
     (from \<noteq> to \<and> 0 \<le> startIndex \<and> startIndex < int (length (tableau s ! from)) \<and>
      (\<forall>i. nat startIndex < i \<and> i < length (tableau s ! from) \<longrightarrow>
         faceUp (tableau s ! from ! i) \<and> faceUp (tableau s ! from ! (i - 1)) \<and>
         rank (tableau s ! from ! i) + 1 = rank (tableau s ! from ! (i - 1)) \<and>
         suit (tableau s ! from ! i) = suit (tableau s ! from ! (i - 1))) \<and>
      (tableau s ! to = [] \<or>
       rank (last (tableau s ! to)) = rank (tableau s ! from ! nat startIndex) + 1))"
proof -
  have le: "i \<le> length xs - 1 \<longleftrightarrow> i < length xs" if "xs \<noteq> []" for i and xs :: "card list"
    using that by (cases xs) auto
  note pairs = tail_ok_pairs[unfolded pair_ok_def]
  have cols: "length (tableau_refs s) = 10"
    using assms(1) by (simp add: length_tableau)
  have f: "tableau s ! from = column s from" and t: "tableau s ! to = column s to"
    using assms cols by (simp_all add: tableau_nth)
  have n: "length (tableau_refs s ! from) = length (column s from)"
    by (simp add: length_column)
  show ?thesis
  proof (cases "from \<noteq> to \<and> 0 \<le> startIndex \<and> startIndex < int (length (column s from))")
    case True
    then have ne: "column s from \<noteq> []" by auto
    show ?thesis using True assms(2,3) cols
      by (auto simp: doMove_def f t n pairs le[OF ne] canDrop_def top_def split: option.splits)
  next
    case False
    then show ?thesis using assms(2,3) cols by (auto simp: doMove_def f t n)
  qed
qed

theorem doMove_legal_iff_witness:
  "length (tableau game10) = 10 \<and> (\<exists>s'. doMove 2 6 4 game10 = Returned True s') \<and>
   rank (tableau game10 ! 2 ! 7) + 1 = rank (tableau game10 ! 2 ! 6) \<and>
   (tableau game10 ! 4 = [] \<or>
    rank (last (tableau game10 ! 4)) = rank (tableau game10 ! 2 ! nat 6) + 1)"
proof -
  have len: "length (tableau game10) = 10" by code_simp
  have col: "length (tableau game10 ! 2) = 17" by code_simp
  have "doMove 2 6 4 game10 = Returned True (state_of (doMove 2 6 4 game10))"
    by code_simp
  then have ex: "\<exists>s'. doMove 2 6 4 game10 = Returned True s'" by (rule exI)
  have legal: "2 \<noteq> (4::nat) \<and> 0 \<le> (6::int) \<and> 6 < int (length (tableau game10 ! 2)) \<and>
      (\<forall>i. nat 6 < i \<and> i < length (tableau game10 ! 2) \<longrightarrow>
         faceUp (tableau game10 ! 2 ! i) \<and> faceUp (tableau game10 ! 2 ! (i - 1)) \<and>
         rank (tableau game10 ! 2 ! i) + 1 = rank (tableau game10 ! 2 ! (i - 1)) \<and>
         suit (tableau game10 ! 2 ! i) = suit (tableau game10 ! 2 ! (i - 1))) \<and>
      (tableau game10 ! 4 = [] \<or>
       rank (last (tableau game10 ! 4)) = rank (tableau game10 ! 2 ! nat 6) + 1)"
    by (rule iffD1[OF doMove_legal_iff[OF len] ex]) simp_all
  have "nat 6 < (7::nat) \<and> (7::nat) < length (tableau game10 ! 2)"
    using col by simp
  with legal have "rank (tableau game10 ! 2 ! 7) + 1 = rank (tableau game10 ! 2 ! (7 - 1))"
    by blast
  then have pair: "rank (tableau game10 ! 2 ! 7) + 1 = rank (tableau game10 ! 2 ! 6)"
    by simp
  from legal have "tableau game10 ! 4 = [] \<or>
      rank (last (tableau game10 ! 4)) = rank (tableau game10 ! 2 ! nat 6) + 1"
    by blast
  with len ex pair show ?thesis by blast
qed

lemma doMove_rejected: "doMove from startIndex to s = Returned False s' \<Longrightarrow> s' = s"
  by (auto simp: doMove_def split: if_splits)

lemma dealRow_rejected: "dealRow s = Returned False s' \<Longrightarrow> s' = s"
  by (auto simp: dealRow_def split: if_splits guard.splits)

text \<open>
  C7. Whenever \<^verbatim>\<open>doMove\<close> or \<^verbatim>\<open>dealRow\<close> returns false, the state it leaves is the
  state it was called on: no field has changed.
\<close>

theorem rejected_unchanged:
  "(doMove from startIndex to s = Returned False s' \<longrightarrow> s' = s) \<and>
   (dealRow s = Returned False s'' \<longrightarrow> s'' = s)"
  using doMove_rejected dealRow_rejected by blast

theorem rejected_unchanged_witness:
  "doMove 0 4 1 game0 = Returned False game0 \<and> doMove 2 5 4 game10 = Returned False game10 \<and>
   dealRow state_init = Returned False state_init"
proof -
  have a: "doMove 0 4 1 game0 = Returned False (state_of (doMove 0 4 1 game0))" by code_simp
  have b: "doMove 2 5 4 game10 = Returned False (state_of (doMove 2 5 4 game10))" by code_simp
  have c: "dealRow state_init = Returned False (state_of (dealRow state_init))" by code_simp
  from a rejected_unchanged[of 0 4 1 game0 "state_of (doMove 0 4 1 game0)"]
  have a': "state_of (doMove 0 4 1 game0) = game0" by blast
  from b rejected_unchanged[of 2 5 4 game10 "state_of (doMove 2 5 4 game10)"]
  have b': "state_of (doMove 2 5 4 game10) = game10" by blast
  from c rejected_unchanged[of _ _ _ state_init _ "state_of (dealRow state_init)"]
  have c': "state_of (dealRow state_init) = state_init" by blast
  show ?thesis using a b c a' b' c' by simp
qed

lemma deal_guard_pass:
  "n \<le> length cols \<Longrightarrow> \<forall>col\<in>set (take n cols). col \<noteq> [] \<Longrightarrow> deal_guard n cols = Pass"
proof (induction n cols rule: deal_guard.induct)
  case (1 cols)
  then show ?case by simp
next
  case (2 n)
  then show ?case by simp
next
  case (3 n col cols)
  then show ?case by simp
qed

lemma complete_with_kept:
  "redo_stack (complete_with c p s) = redo_stack s \<and>
   moves (complete_with c p s) = moves s \<and>
   stock_refs (complete_with c p s) = stock_refs s \<and>
   dealsRemaining (complete_with c p s) = dealsRemaining s \<and>
   includeAces (complete_with c p s) = includeAces s"
  by (cases p) (auto simp: expose_def)

lemma complete_with_history:
  "\<exists>e. history (complete_with c p s) = history s @ [e] \<and> is_complete e \<and>
       score (complete_with c p s) = score s + 100 \<and>
       foundations (complete_with c p s) = foundations s + 1"
  by (cases p) (auto simp: expose_def)

lemma completeTopRun_kept:
  "redo_stack (snd (completeTopRun c a s)) = redo_stack s \<and>
   moves (snd (completeTopRun c a s)) = moves s \<and>
   stock_refs (snd (completeTopRun c a s)) = stock_refs s \<and>
   dealsRemaining (snd (completeTopRun c a s)) = dealsRemaining s \<and>
   includeAces (snd (completeTopRun c a s)) = includeAces s"
  by (cases "find_run (column s c) a") (simp_all add: completeTopRun_def complete_with_kept)

lemma completeTopRun_history:
  "\<exists>cs. history (snd (completeTopRun c a s)) = history s @ cs \<and> list_all is_complete cs \<and>
        score (snd (completeTopRun c a s)) = score s + 100 * int (length cs) \<and>
        foundations (snd (completeTopRun c a s)) = foundations s + int (length cs)"
proof (cases "find_run (column s c) a")
  case None
  then show ?thesis by (simp add: completeTopRun_def)
next
  case (Some idxs)
  let ?p = "remove_indices idxs (tableau_refs s ! c) []"
  obtain e where "history (complete_with c ?p s) = history s @ [e]" "is_complete e"
      "score (complete_with c ?p s) = score s + 100"
      "foundations (complete_with c ?p s) = foundations s + 1"
    using complete_with_history by blast
  then show ?thesis
    using Some by (intro exI[of _ "[e]"]) (simp add: completeTopRun_def)
qed

lemma complete_all_kept:
  "redo_stack (complete_all n c s) = redo_stack s \<and> moves (complete_all n c s) = moves s \<and>
   stock_refs (complete_all n c s) = stock_refs s \<and>
   dealsRemaining (complete_all n c s) = dealsRemaining s"
  by (induction n arbitrary: c s) (simp_all add: completeTopRun_kept)

lemma complete_all_history:
  "\<exists>cs. history (complete_all n c s) = history s @ cs \<and> list_all is_complete cs \<and>
        score (complete_all n c s) = score s + 100 * int (length cs) \<and>
        foundations (complete_all n c s) = foundations s + int (length cs)"
proof (induction n arbitrary: c s)
  case 0
  then show ?case by simp
next
  case (Suc n)
  let ?s1 = "snd (completeTopRun c (includeAces s) s)"
  obtain cs1 where 1: "history ?s1 = history s @ cs1" "list_all is_complete cs1"
      "score ?s1 = score s + 100 * int (length cs1)"
      "foundations ?s1 = foundations s + int (length cs1)"
    using completeTopRun_history by blast
  obtain cs2 where 2: "history (complete_all n (Suc c) ?s1) = history ?s1 @ cs2"
      "list_all is_complete cs2"
      "score (complete_all n (Suc c) ?s1) = score ?s1 + 100 * int (length cs2)"
      "foundations (complete_all n (Suc c) ?s1) = foundations ?s1 + int (length cs2)"
    using Suc.IH by blast
  show ?case
    by (rule exI[of _ "cs1 @ cs2"]) (simp add: 1 2 algebra_simps)
qed

text \<open>
  C10. On a state with an empty stock and ten non-empty columns \<^verbatim>\<open>dealRow\<close> is not
  rejected: it returns true, deals no card (the tableau and the stock go unchanged into
  the completion sweep), pushes a \<^verbatim>\<open>deal\<close> entry with an empty \<^verbatim>\<open>dealt\<close> list right
  after the old history, clears the redo stack, adds 1 to the move counter and takes the
  move penalty off the score (floored at 0). The sweep that follows can only add
  \<^verbatim>\<open>complete\<close> entries, each worth 100 points.
\<close>

theorem dealRow_empty_stock:
  assumes "stock s = []" and "length (tableau s) = 10" and "\<forall>col\<in>set (tableau s). col \<noteq> []"
  shows "\<exists>cs. dealRow s =
           Returned True
             (complete_all 10 0
                (s\<lparr>history := history s @ [Deal []], redo_stack := [], moves := moves s + 1,
                   score := max 0 (score s - 1)\<rparr>)) \<and>
         history (state_of (dealRow s)) = history s @ Deal [] # cs \<and> list_all is_complete cs \<and>
         redo_stack (state_of (dealRow s)) = [] \<and>
         moves (state_of (dealRow s)) = moves s + 1 \<and>
         stock (state_of (dealRow s)) = [] \<and>
         dealsRemaining (state_of (dealRow s)) = dealsRemaining s \<and>
         score (state_of (dealRow s)) = max 0 (score s - 1) + 100 * int (length cs)"
proof -
  let ?s1 = "s\<lparr>history := history s @ [Deal []], redo_stack := [], moves := moves s + 1,
               score := max 0 (score s - 1)\<rparr>"
  have st: "stock_refs s = []"
    using assms(1) by (simp add: stock_Nil)
  have cols: "length (tableau_refs s) = 10"
    using assms(2) by (simp add: length_tableau)
  have ne: "\<forall>col\<in>set (tableau_refs s). col \<noteq> []"
    using assms(3) by (simp only: tableau_no_Nil)
  have guard: "deal_guard 10 (tableau_refs s) = Pass"
    using cols ne by (intro deal_guard_pass) (auto dest: in_set_takeD)
  have cards: "deal_cards s = (s, [])"
    using st by (simp add: deal_cards_def)
  have run: "dealRow s = Returned True (complete_all 10 0 ?s1)"
    using st guard cards by (simp add: dealRow_def)
  obtain cs where cs: "history (complete_all 10 0 ?s1) = history ?s1 @ cs" "list_all is_complete cs"
      "score (complete_all 10 0 ?s1) = score ?s1 + 100 * int (length cs)"
    using complete_all_history by blast
  have "stock_refs (complete_all 10 0 ?s1) = []"
    using st by (simp add: complete_all_kept)
  then have "stock (complete_all 10 0 ?s1) = []"
    by (simp add: stock_Nil)
  then show ?thesis
    by (intro exI[of _ cs]) (simp add: run cs complete_all_kept)
qed

theorem dealRow_empty_stock_witness:
  "stock (run [DealRow, DealRow, DealRow] game10) = [] \<and>
   length (tableau (run [DealRow, DealRow, DealRow] game10)) = 10 \<and>
   dealRow (run [DealRow, DealRow, DealRow] game10) =
     Returned True (state_of (dealRow (run [DealRow, DealRow, DealRow] game10))) \<and>
   moves (state_of (dealRow (run [DealRow, DealRow, DealRow] game10))) = 14 \<and>
   redo_stack (state_of (dealRow (run [DealRow, DealRow, DealRow] game10))) = []"
proof -
  let ?s = "run [DealRow, DealRow, DealRow] game10"
  have st: "stock ?s = []" by code_simp
  have len: "length (tableau ?s) = 10" by code_simp
  have ne: "\<forall>col\<in>set (tableau ?s). col \<noteq> []" by code_simp
  have mv: "moves ?s = 13" by code_simp
  from dealRow_empty_stock[OF st len ne] obtain cs where
    "dealRow ?s = Returned True (complete_all 10 0
        (?s\<lparr>history := history ?s @ [Deal []], redo_stack := [], moves := moves ?s + 1,
            score := max 0 (score ?s - 1)\<rparr>))"
    "redo_stack (state_of (dealRow ?s)) = []" "moves (state_of (dealRow ?s)) = moves ?s + 1"
    by blast
  then show ?thesis using st len mv by simp
qed

section \<open>Undo and redo\<close>

lemma splice_top:
  "k \<le> length xs \<Longrightarrow> splice (int (length xs) - int k) (int k) xs = take (length xs - k) xs"
  by (simp add: splice_def Let_def nat_diff_distrib' min_def)

lemma splice_appended:
  "splice (int (length (xs @ ys)) - int (length ys)) (int (length ys)) (xs @ ys) = xs"
  using splice_top[of "length ys" "xs @ ys"] by simp

lemma findIndex_last:
  "col \<noteq> [] \<Longrightarrow> id_card (last col) = i \<Longrightarrow> i \<notin> set (map id_card (butlast col)) \<Longrightarrow>
   findIndex i (col @ rest) = Some (length col - 1)"
proof (induction col)
  case Nil
  then show ?case by simp
next
  case (Cons c col)
  show ?case
  proof (cases "col = []")
    case True
    then show ?thesis using Cons.prems by simp
  next
    case False
    then have "findIndex i (col @ rest) = Some (length col - 1)"
      using Cons.prems by (intro Cons.IH) auto
    moreover have "id_card c \<noteq> i" using Cons.prems False by auto
    ultimately show ?thesis using False by (cases col) auto
  qed
qed

lemma findIndex_ids: "map id_card xs = map id_card ys \<Longrightarrow> findIndex i xs = findIndex i ys"
proof (induction xs arbitrary: ys)
  case Nil
  then show ?case by simp
next
  case (Cons x xs)
  then obtain y ys' where ys: "ys = y # ys'" by (cases ys) auto
  then have "id_card x = id_card y" and "map id_card xs = map id_card ys'"
    using Cons.prems by simp_all
  then show ?case using Cons.IH[of ys'] ys by simp
qed

text \<open>A write to \<^verbatim>\<open>faceUp\<close> changes no id, and writing the old value back undoes it.\<close>

lemma length_set_faceUp: "length (set_faceUp r b st) = length st"
  by (simp add: set_faceUp_def)

lemma id_set_faceUp: "id_card (set_faceUp r b st ! i) = id_card (st ! i)"
  by (cases "r < length st"; cases "i = r") (simp_all add: set_faceUp_def list_update_beyond)

lemma ids_set_faceUp:
  "map id_card (cards_of (set_faceUp r b st) refs) = map id_card (cards_of st refs)"
  by (simp add: cards_of_def id_set_faceUp)

lemma set_faceUp_back:
  assumes "faceUp (st ! r)"
  shows "set_faceUp r True (set_faceUp r False st) = st"
proof (cases "r < length st")
  case True
  have "(st ! r)\<lparr>faceUp := True\<rparr> = st ! r" using assms by simp
  then show ?thesis using True by (simp add: set_faceUp_def)
next
  case False
  then show ?thesis by (simp add: set_faceUp_def list_update_beyond)
qed

text \<open>
  Where the recorded card is the top of the column, the write to \<^verbatim>\<open>faceUp\<close> reaches the
  object on that top, whatever lies above it and whatever was written to \<^verbatim>\<open>faceUp\<close>
  since.
\<close>

lemma set_turned_top:
  assumes fits: "turned_fits (cards_of st col) (map_option (nth st) turned)"
    and ids: "\<And>i. id_card (st' ! i) = id_card (st ! i)"
  shows "set_turned turned b (col @ rest) st' =
           (case turned of None \<Rightarrow> st' | Some t \<Rightarrow> set_faceUp (last col) b st')"
proof (cases turned)
  case None
  then show ?thesis by (simp add: set_turned_def)
next
  case (Some t)
  then have fit: "cards_of st col \<noteq> []" "id_card (last (cards_of st col)) = id_card (st ! t)"
      "id_card (st ! t) \<notin> set (map id_card (butlast (cards_of st col)))"
    using fits by (simp_all add: turned_fits_def)
  then have ne: "col \<noteq> []" by (auto simp: cards_of_def)
  have "findIndex (id_card (st ! t)) (cards_of st col @ cards_of st rest) =
      Some (length (cards_of st col) - 1)"
    using fit by (intro findIndex_last) auto
  moreover have "map id_card (cards_of st' (col @ rest)) =
      map id_card (cards_of st col @ cards_of st rest)"
    by (simp add: cards_of_def ids)
  ultimately have "findIndex (id_card (st' ! t)) (cards_of st' (col @ rest)) =
      Some (length col - 1)"
    using findIndex_ids[of "cards_of st' (col @ rest)" "cards_of st col @ cards_of st rest"]
    by (simp add: ids cards_of_def)
  moreover have "(col @ rest) ! (length col - 1) = last col"
    using ne by (simp add: nth_append last_conv_nth)
  ultimately show ?thesis using Some by (simp add: set_turned_def)
qed

lemma turned_top_up:
  assumes "turned_fits (cards_of st col) (map_option (nth st) turned)"
  shows "(case turned of None \<Rightarrow> True | Some t \<Rightarrow> faceUp (st ! last col))"
proof (cases turned)
  case None
  then show ?thesis by simp
next
  case (Some t)
  then have "cards_of st col \<noteq> []" and "faceUp (last (cards_of st col))"
    using assms by (simp_all add: turned_fits_def)
  then show ?thesis using Some by (simp add: cards_of_def last_map)
qed

text \<open>
  The store after the write \<^verbatim>\<open>undo\<close> makes for the recorded card, and the write of
  \<^verbatim>\<open>redo\<close> that takes it back.
\<close>

lemma set_turned_round:
  assumes fits: "turned_fits (cards_of st col) (map_option (nth st) turned)"
  shows "set_turned turned True col
           (case turned of None \<Rightarrow> st | Some t \<Rightarrow> set_faceUp (last col) False st) = st"
proof -
  let ?st1 = "case turned of None \<Rightarrow> st | Some t \<Rightarrow> set_faceUp (last col) False st"
  have ids: "id_card (?st1 ! i) = id_card (st ! i)" for i
    by (cases turned) (simp_all add: id_set_faceUp)
  have "set_turned turned True (col @ []) ?st1 =
      (case turned of None \<Rightarrow> ?st1 | Some t \<Rightarrow> set_faceUp (last col) True ?st1)"
    using fits ids by (rule set_turned_top)
  then show ?thesis
    using turned_top_up[OF fits] by (cases turned) (simp_all add: set_faceUp_back)
qed

text \<open>Undoing and redoing a move entry that fits the state.\<close>

lemma redo_undo_move:
  assumes hist: "history s = hs @ [Move from to moved turned]"
    and fits: "entry_fits s (Move from to moved turned)"
  shows "undo s = Returned () (state_of (undo s))"
    and "redo (state_of (undo s)) =
           Returned ()
             (s\<lparr>tableau_refs := (tableau_refs s)
                   [to := take (length (tableau_refs s ! to) - length moved) (tableau_refs s ! to) @
                          moved],
                moves := moves s + 2\<rparr>)"
    and "map (cards_of (store s))
           ((tableau_refs s)
              [to := take (length (tableau_refs s ! to) - length moved) (tableau_refs s ! to) @
                     moved]) = tableau s"
proof -
  let ?T = "tableau_refs s" and ?st = "store s"
  let ?pre = "take (length (?T ! to) - length moved) (?T ! to)"
  let ?st1 = "case turned of None \<Rightarrow> ?st | Some t \<Rightarrow> set_faceUp (last (?T ! from)) False ?st"
  have f: "from < length ?T" and t: "to < length ?T" and ne: "from \<noteq> to"
    using fits by (simp_all add: length_tableau)
  have k: "length moved \<le> length (?T ! to)"
    and top: "drop (length (?T ! to) - length moved) (cards_of ?st (?T ! to)) = cards_of ?st moved"
    and tf: "turned_fits (cards_of ?st (?T ! from)) (map_option (nth ?st) turned)"
    using fits f t by (simp_all add: tableau_nth column_def cards_of_def)
  have pop: "pop_cards to (length moved) ?T = ?T[to := ?pre]"
    using k by (simp add: pop_cards_def splice_top)
  have push: "push_cards from moved (?T[to := ?pre]) = ?T[to := ?pre, from := ?T ! from @ moved]"
    using ne by (simp add: push_cards_def)
  let ?Tu = "?T[to := ?pre, from := ?T ! from @ moved]"
  have turn: "set_turned turned False (?T ! from @ moved) ?st = ?st1"
    using tf by (rule set_turned_top) simp
  let ?u = "s\<lparr>history := hs, tableau_refs := ?Tu, store := ?st1,
               redo_stack := redo_stack s @ [Move from to moved turned],
               moves := moves s + 1\<rparr>"
  have u: "undo s = Returned () ?u"
    using hist f t pop push turn by (simp add: undo_def turn_in_def)
  then show "undo s = Returned () (state_of (undo s))" by simp
  have pop': "pop_cards from (length moved) ?Tu = ?Tu[from := ?T ! from]"
    using f splice_appended[of "?T ! from" moved] by (simp add: pop_cards_def)
  have push': "push_cards to moved (?Tu[from := ?T ! from]) = ?T[to := ?pre @ moved]"
    using ne t f by (simp add: push_cards_def list_update_swap[of "to" "from"])
  have turn': "set_turned turned True (?T[to := ?pre @ moved] ! from) ?st1 = ?st"
    using ne set_turned_round[OF tf] by simp
  have "redo ?u = Returned () (s\<lparr>tableau_refs := ?T[to := ?pre @ moved], moves := moves s + 2\<rparr>)"
    using hist f t pop' push' turn' by (simp add: redo_def turn_in_def)
  then show "redo (state_of (undo s)) =
      Returned () (s\<lparr>tableau_refs := ?T[to := ?pre @ moved], moves := moves s + 2\<rparr>)"
    using u by simp
  have "cards_of ?st (?pre @ moved) = cards_of ?st (?T ! to)"
    using top append_take_drop_id[of "length (?T ! to) - length moved" "cards_of ?st (?T ! to)"]
    by (simp add: cards_of_def take_map)
  then have "map (cards_of ?st) (?T[to := ?pre @ moved]) = (map (cards_of ?st) ?T)[to := cards_of ?st (?T ! to)]"
    by (simp add: map_update)
  also have "\<dots> = map (cards_of ?st) ?T"
    using t by (simp add: list_update_same_conv)
  finally show "map (cards_of ?st) (?T[to := ?pre @ moved]) = tableau s"
    by (simp add: tableau_def)
qed

text \<open>Undoing and redoing a complete entry of 13 cards that fits the state.\<close>

lemma redo_undo_complete:
  assumes hist: "history s = hs @ [Complete col cards turned]"
    and fits: "entry_fits s (Complete col cards turned)"
  shows "undo s = Returned () (state_of (undo s))"
    and "redo (state_of (undo s)) =
           Returned ()
             (s\<lparr>foundation_refs :=
                   take (length (foundation_refs s) - length cards) (foundation_refs s) @ cards,
                moves := moves s + 2\<rparr>)"
    and "cards_of (store s)
           (take (length (foundation_refs s) - length cards) (foundation_refs s) @ cards) =
         foundationsCards s"
proof -
  let ?T = "tableau_refs s" and ?st = "store s" and ?F = "foundation_refs s"
  let ?n = "length ?F - length cards"
  let ?st1 = "case turned of None \<Rightarrow> ?st | Some t \<Rightarrow> set_faceUp (last (?T ! col)) False ?st"
  let ?ids = "set (map id_card (cards_of ?st cards))"
  have c: "col < length ?T" and n: "length cards = 13"
    using fits by (simp_all add: length_tableau)
  have top: "drop ?n (cards_of ?st ?F) = cards_of ?st cards"
    and other: "list_all (\<lambda>c. id_card c \<notin> ?ids) (take ?n (cards_of ?st ?F))"
    and tf: "turned_fits (cards_of ?st (?T ! col)) (map_option (nth ?st) turned)"
    using fits c by (auto simp: foundationsCards_def tableau_nth column_def cards_of_def)
  have ids: "id_card (?st1 ! i) = id_card (st ! i)" if "st = ?st" for i st
    using that by (cases turned) (simp_all add: id_set_faceUp)
  have turn: "set_turned turned False (?T ! col @ cards) ?st = ?st1"
    using tf by (rule set_turned_top) simp
  have keep: "filter (\<lambda>r. id_card (?st ! r) \<notin> ?ids) (take ?n ?F) = take ?n ?F"
    using other by (simp add: cards_of_def take_map list_all_iff filter_id_conv)
  have same: "cards_of ?st (drop ?n ?F) = cards_of ?st cards"
    using top by (simp add: cards_of_def drop_map)
  have "\<forall>r\<in>set (drop ?n ?F). id_card (?st ! r) \<in> ?ids"
  proof
    fix r assume "r \<in> set (drop ?n ?F)"
    then have "?st ! r \<in> set (cards_of ?st (drop ?n ?F))"
      by (simp add: cards_of_def)
    then have "?st ! r \<in> set (cards_of ?st cards)"
      by (simp only: same)
    then show "id_card (?st ! r) \<in> ?ids" by simp
  qed
  then have gone: "filter (\<lambda>r. id_card (?st ! r) \<notin> ?ids) (drop ?n ?F) = []"
    by (simp add: filter_empty_conv)
  have "filter (\<lambda>r. id_card (?st ! r) \<notin> ?ids) (take ?n ?F @ drop ?n ?F) = take ?n ?F"
    using keep gone by (simp only: filter_append append_Nil2)
  then have rem: "filter (\<lambda>r. id_card (?st ! r) \<notin> ?ids) ?F = take ?n ?F"
    by simp
  have rem1: "filter (\<lambda>r. id_card (?st1 ! r) \<notin> set (map id_card (cards_of ?st1 cards))) ?F =
      take ?n ?F"
    using rem ids[OF refl] by (simp add: cards_of_def)
  let ?u = "s\<lparr>history := hs, tableau_refs := ?T[col := ?T ! col @ cards], store := ?st1,
               foundation_refs := take ?n ?F,
               foundations := foundations s - 1, score := score s - 100,
               redo_stack := redo_stack s @ [Complete col cards turned],
               moves := moves s + 1\<rparr>"
  have u: "undo s = Returned () ?u"
    using hist c turn rem1
    by (simp add: undo_def turn_in_def push_cards_def removeFromFoundations_def)
  then show "undo s = Returned () (state_of (undo s))" by simp
  have "splice (int (length (?T ! col @ cards)) - 13) 13 (?T ! col @ cards) = ?T ! col"
    using splice_appended[of "?T ! col" cards] n by simp
  then have pop: "pop_cards col 13 (?T[col := ?T ! col @ cards]) = ?T"
    using c by (simp add: pop_cards_def list_update_same_conv)
  have turn': "set_turned turned True (?T ! col) ?st1 = ?st"
    using set_turned_round[OF tf] by simp
  have "redo ?u = Returned () (s\<lparr>foundation_refs := take ?n ?F @ cards, moves := moves s + 2\<rparr>)"
    using hist c pop turn' by (simp add: redo_def turn_in_def)
  then show "redo (state_of (undo s)) =
      Returned () (s\<lparr>foundation_refs := take ?n ?F @ cards, moves := moves s + 2\<rparr>)"
    using u by simp
  show "cards_of ?st (take ?n ?F @ cards) = foundationsCards s"
    using top append_take_drop_id[of ?n "cards_of ?st ?F"]
    by (simp add: cards_of_def take_map foundationsCards_def)
qed

text \<open>
  The two loops over the ten columns: \<^verbatim>\<open>undo\<close> pops the tops onto the front of the stock
  and turns them down, \<^verbatim>\<open>redo\<close> deals them back and turns them up.
\<close>

lemma fold_set_faceUp:
  "length (fold (\<lambda>r. set_faceUp r b) refs st) = length st \<and>
   (\<forall>i<length st. fold (\<lambda>r. set_faceUp r b) refs st ! i =
      (if i \<in> set refs then (st ! i)\<lparr>faceUp := b\<rparr> else st ! i))"
proof (induction refs arbitrary: st)
  case Nil
  then show ?case by simp
next
  case (Cons r refs)
  let ?st1 = "set_faceUp r b st"
  have len: "length ?st1 = length st" by (rule length_set_faceUp)
  have one: "?st1 ! i = (if i = r then (st ! i)\<lparr>faceUp := b\<rparr> else st ! i)" if "i < length st" for i
    using that by (simp add: set_faceUp_def)
  show ?case
    using Cons.IH[of ?st1] by (auto simp: len one)
qed

lemma undo_deal_pops:
  "n \<le> length (tableau_refs s) \<Longrightarrow> list_all (\<lambda>col. col \<noteq> []) (take n (tableau_refs s)) \<Longrightarrow>
   undo_deal n s = Returned ()
     (s\<lparr>tableau_refs := map butlast (take n (tableau_refs s)) @ drop n (tableau_refs s),
        store := fold (\<lambda>r. set_faceUp r False) (rev (map last (take n (tableau_refs s)))) (store s),
        stock_refs := map last (take n (tableau_refs s)) @ stock_refs s\<rparr>)"
proof (induction n arbitrary: s)
  case 0
  then show ?case by simp
next
  case (Suc n)
  let ?T = "tableau_refs s"
  let ?s1 = "s\<lparr>tableau_refs := ?T[n := butlast (?T ! n)],
                store := set_faceUp (last (?T ! n)) False (store s),
                stock_refs := last (?T ! n) # stock_refs s\<rparr>"
  have n: "n < length ?T" using Suc.prems by simp
  have tk: "take (Suc n) ?T = take n ?T @ [?T ! n]"
    using n by (rule take_Suc_conv_app_nth)
  then have ne: "?T ! n \<noteq> []" and below: "list_all (\<lambda>col. col \<noteq> []) (take n ?T)"
    using Suc.prems(2) by simp_all
  have "undo_deal n ?s1 = Returned ()
      (?s1\<lparr>tableau_refs := map butlast (take n (tableau_refs ?s1)) @ drop n (tableau_refs ?s1),
           store := fold (\<lambda>r. set_faceUp r False) (rev (map last (take n (tableau_refs ?s1))))
                      (store ?s1),
           stock_refs := map last (take n (tableau_refs ?s1)) @ stock_refs ?s1\<rparr>)"
    using n below by (intro Suc.IH) simp_all
  moreover have "drop n (?T[n := butlast (?T ! n)]) = butlast (?T ! n) # drop (Suc n) ?T"
    using n by (simp add: drop_update_cancel Cons_nth_drop_Suc[symmetric] upd_conv_take_nth_drop)
  ultimately show ?case
    using n ne tk by simp
qed

lemma redo_deal_deals:
  "length cs = n \<Longrightarrow> c + n \<le> length (tableau_refs s) \<Longrightarrow> stock_refs s = cs @ left \<Longrightarrow>
   redo_deal n c s = Returned ()
     (s\<lparr>stock_refs := left,
        store := fold (\<lambda>r. set_faceUp r True) cs (store s),
        tableau_refs := take c (tableau_refs s) @
          map (\<lambda>(col, r). col @ [r]) (zip (take n (drop c (tableau_refs s))) cs) @
          drop (c + n) (tableau_refs s)\<rparr>)"
proof (induction n arbitrary: c s cs)
  case 0
  then show ?case by simp
next
  case (Suc n)
  let ?T = "tableau_refs s"
  obtain r cs' where cs: "cs = r # cs'" "length cs' = n"
    using Suc.prems(1) by (cases cs) auto
  have c: "c < length ?T" using Suc.prems by simp
  let ?s1 = "s\<lparr>stock_refs := cs' @ left, store := set_faceUp r True (store s),
                tableau_refs := ?T[c := ?T ! c @ [r]]\<rparr>"
  have step: "redo_deal (Suc n) c s = redo_deal n (Suc c) ?s1"
    using c cs Suc.prems(3) by simp
  have "redo_deal n (Suc c) ?s1 = Returned ()
      (?s1\<lparr>stock_refs := left,
           store := fold (\<lambda>r. set_faceUp r True) cs' (store ?s1),
           tableau_refs := take (Suc c) (tableau_refs ?s1) @
             map (\<lambda>(col, r). col @ [r]) (zip (take n (drop (Suc c) (tableau_refs ?s1))) cs') @
             drop (Suc c + n) (tableau_refs ?s1)\<rparr>)"
    using Suc.prems cs by (intro Suc.IH) simp_all
  moreover have "take (Suc c) (?T[c := x]) = take c ?T @ [x]" for x
    using c by (simp add: take_Suc_conv_app_nth)
  moreover have "take (Suc n) (drop c ?T) = ?T ! c # take n (drop (Suc c) ?T)"
    using c by (simp add: Cons_nth_drop_Suc[symmetric])
  ultimately show ?case
    using step cs by simp
qed

text \<open>Undoing and redoing a deal entry on ten columns with face-up tops.\<close>

lemma redo_undo_deal:
  assumes hist: "history s = hs @ [Deal dealt]"
    and fits: "entry_fits s (Deal dealt)"
  shows "undo s = Returned () (state_of (undo s)) \<and>
         redo (state_of (undo s)) = Returned () (s\<lparr>moves := moves s + 2\<rparr>)"
proof -
  let ?T = "tableau_refs s" and ?st = "store s"
  let ?tops = "map last ?T"
  let ?st1 = "fold (\<lambda>r. set_faceUp r False) (rev ?tops) ?st"
  have len: "length ?T = 10"
    using fits by (simp add: length_tableau)
  have tops: "\<forall>col\<in>set ?T. col \<noteq> [] \<and> faceUp (?st ! last col)"
    using fits by (auto simp: tableau_def cards_of_def list_all_iff last_map)
  then have ne: "list_all (\<lambda>col. col \<noteq> []) (take 10 ?T)"
    using len by (simp add: list_all_iff)
  let ?p = "s\<lparr>history := hs\<rparr>"
  let ?u = "s\<lparr>history := hs, tableau_refs := map butlast ?T, store := ?st1,
              stock_refs := ?tops @ stock_refs s,
              dealsRemaining := dealsRemaining s + 1,
              redo_stack := redo_stack s @ [Deal dealt], moves := moves s + 1\<rparr>"
  let ?v = "s\<lparr>history := hs, tableau_refs := map butlast ?T, store := ?st1,
               stock_refs := ?tops @ stock_refs s,
               dealsRemaining := dealsRemaining s + 1, moves := moves s + 1\<rparr>"
  have "undo_deal 10 ?p = Returned ()
      (?p\<lparr>tableau_refs := map butlast ?T, store := ?st1, stock_refs := ?tops @ stock_refs s\<rparr>)"
    using undo_deal_pops[of 10 ?p] len ne by simp
  then have u: "undo s = Returned () ?u"
    using hist by (simp add: undo_def)
  have "map (\<lambda>(col, r). col @ [r]) (zip (map butlast ?T) ?tops) =
      map (\<lambda>col. butlast col @ [last col]) ?T"
    by (simp add: zip_map_map zip_same_conv_map comp_def)
  also have "\<dots> = map (\<lambda>col. col) ?T"
    using tops by (intro map_cong) auto
  finally have dealt_back: "map (\<lambda>(col, r). col @ [r]) (zip (map butlast ?T) ?tops) = ?T"
    by simp
  have store_back: "fold (\<lambda>r. set_faceUp r True) ?tops ?st1 = ?st"
  proof (rule nth_equalityI)
    show "length (fold (\<lambda>r. set_faceUp r True) ?tops ?st1) = length ?st"
      by (simp add: fold_set_faceUp)
  next
    fix i assume "i < length (fold (\<lambda>r. set_faceUp r True) ?tops ?st1)"
    then have i: "i < length ?st" and i1: "i < length ?st1"
      by (simp_all add: fold_set_faceUp)
    have down: "?st1 ! i = (if i \<in> set ?tops then (?st ! i)\<lparr>faceUp := False\<rparr> else ?st ! i)"
      using i fold_set_faceUp[of False "rev ?tops" ?st] by simp
    have up: "fold (\<lambda>r. set_faceUp r True) ?tops ?st1 ! i =
        (if i \<in> set ?tops then (?st1 ! i)\<lparr>faceUp := True\<rparr> else ?st1 ! i)"
      using i1 fold_set_faceUp[of True ?tops ?st1] by simp
    have "faceUp (?st ! i)" if "i \<in> set ?tops"
      using that tops by auto
    then show "fold (\<lambda>r. set_faceUp r True) ?tops ?st1 ! i = ?st ! i"
      unfolding up down by simp
  qed
  have "redo_deal 10 0 ?v = Returned ()
      (?v\<lparr>stock_refs := stock_refs s, store := ?st, tableau_refs := ?T\<rparr>)"
    using redo_deal_deals[of ?tops 10 0 ?v "stock_refs s"] len dealt_back store_back by simp
  moreover have "redo ?u = finish_redo_deal (Deal dealt) (redo_deal 10 0 ?v)"
    by (simp add: redo_def)
  moreover have "?v\<lparr>stock_refs := stock_refs s, store := ?st, tableau_refs := ?T,
      dealsRemaining := dealsRemaining s + 1 - 1,
      history := hs @ [Deal dealt], moves := moves s + 1 + 1\<rparr> = s\<lparr>moves := moves s + 2\<rparr>"
    using hist by simp
  ultimately have "redo ?u = Returned () (s\<lparr>moves := moves s + 2\<rparr>)"
    by simp
  then show ?thesis using u by simp
qed

lemma last_entry: "history s \<noteq> [] \<Longrightarrow> history s = butlast (history s) @ [last (history s)]"
  by simp

text \<open>
  C3, as amended. When the last history entry describes the state (\<open>entry_fits\<close>: a move
  entry whose moved cards top the destination, a deal entry on ten columns with face-up
  tops, or a complete entry of 13 cards), \<^verbatim>\<open>undo()\<close> followed by \<^verbatim>\<open>redo()\<close> restores
  every card position and every \<^verbatim>\<open>faceUp\<close> flag of the tableau, the stock and the
  foundations list, and every other field of the state but the move counter, which ends 2
  higher: the card objects with their flags, \<^verbatim>\<open>dealsRemaining\<close>, the foundations counter,
  the score and both stacks are as before the undo. Only the identity of the objects in
  the two arrays may differ: after a move entry the destination holds the clones the entry
  keeps, card for card equal to the objects that were there.
\<close>

theorem redo_after_undo:
  assumes "history s \<noteq> []" and "entry_fits s (last (history s))"
  shows "undo s = Returned () (state_of (undo s)) \<and>
         (\<exists>s'. redo (state_of (undo s)) = Returned () s' \<and>
               tableau s' = tableau s \<and> stock s' = stock s \<and>
               foundationsCards s' = foundationsCards s \<and>
               s'\<lparr>tableau_refs := tableau_refs s, foundation_refs := foundation_refs s\<rparr> =
                 s\<lparr>moves := moves s + 2\<rparr>)"
proof (cases "last (history s)")
  case (Complete col cards turned)
  then have "history s = butlast (history s) @ [Complete col cards turned]"
    and "entry_fits s (Complete col cards turned)"
    using assms last_entry[OF assms(1)] by auto
  note facts = redo_undo_complete[OF this]
  let ?s' = "s\<lparr>foundation_refs :=
                 take (length (foundation_refs s) - length cards) (foundation_refs s) @ cards,
               moves := moves s + 2\<rparr>"
  have "foundationsCards ?s' = foundationsCards s"
    using facts(3) by (simp add: foundationsCards_def)
  moreover have "tableau ?s' = tableau s" and "stock ?s' = stock s"
    by (simp_all add: tableau_def stock_def)
  moreover have "?s'\<lparr>tableau_refs := tableau_refs s, foundation_refs := foundation_refs s\<rparr> =
      s\<lparr>moves := moves s + 2\<rparr>"
    by simp
  ultimately show ?thesis
    using facts(1,2) by blast
next
  case (Move f t moved turned)
  then have "history s = butlast (history s) @ [Move f t moved turned]"
    and "entry_fits s (Move f t moved turned)"
    using assms last_entry[OF assms(1)] by simp_all
  note facts = redo_undo_move[OF this]
  let ?s' = "s\<lparr>tableau_refs := (tableau_refs s)
                 [t := take (length (tableau_refs s ! t) - length moved) (tableau_refs s ! t) @
                       moved],
               moves := moves s + 2\<rparr>"
  have "tableau ?s' = tableau s"
    using facts(3) by (simp add: tableau_def)
  moreover have "stock ?s' = stock s" and "foundationsCards ?s' = foundationsCards s"
    by (simp_all add: stock_def foundationsCards_def)
  moreover have "?s'\<lparr>tableau_refs := tableau_refs s, foundation_refs := foundation_refs s\<rparr> =
      s\<lparr>moves := moves s + 2\<rparr>"
    by simp
  ultimately show ?thesis
    using facts(1,2) by blast
next
  case (Deal dealt)
  then have "history s = butlast (history s) @ [Deal dealt]"
    and "entry_fits s (Deal dealt)"
    using assms last_entry[OF assms(1)] by simp_all
  note facts = redo_undo_deal[OF this]
  let ?s' = "s\<lparr>moves := moves s + 2\<rparr>"
  have "tableau ?s' = tableau s" and "stock ?s' = stock s"
    and "foundationsCards ?s' = foundationsCards s"
    by (simp_all add: tableau_def stock_def foundationsCards_def)
  moreover have "?s'\<lparr>tableau_refs := tableau_refs s, foundation_refs := foundation_refs s\<rparr> =
      s\<lparr>moves := moves s + 2\<rparr>"
    by simp
  ultimately show ?thesis
    using facts by blast
qed

theorem redo_after_undo_witness:
  "history (run [DoMove 1 4 4] game0) \<noteq> [] \<and>
   entry_fits (run [DoMove 1 4 4] game0) (last (history (run [DoMove 1 4 4] game0))) \<and>
   tableau (state_of (redo (state_of (undo (run [DoMove 1 4 4] game0))))) =
     tableau (run [DoMove 1 4 4] game0) \<and>
   stock (state_of (redo (state_of (undo (run [DoMove 1 4 4] game0))))) =
     stock (run [DoMove 1 4 4] game0) \<and>
   moves (state_of (redo (state_of (undo (run [DoMove 1 4 4] game0))))) = 3 \<and>
   entry_fits (run [DealRow] game10) (last (history (run [DealRow] game10))) \<and>
   tableau (state_of (redo (state_of (undo (run [DealRow] game10))))) =
     tableau (run [DealRow] game10) \<and>
   moves (state_of (redo (state_of (undo (run [DealRow] game10))))) = 13"
proof -
  let ?s = "run [DoMove 1 4 4] game0" and ?d = "run [DealRow] game10"
  have h: "history ?s \<noteq> []" and f: "entry_fits ?s (last (history ?s))" and m: "moves ?s = 1"
    by code_simp+
  have h': "history ?d \<noteq> []" and f': "entry_fits ?d (last (history ?d))" and m': "moves ?d = 11"
    by code_simp+
  from redo_after_undo[OF h f] obtain s' where
    s': "redo (state_of (undo ?s)) = Returned () s'" "tableau s' = tableau ?s"
      "stock s' = stock ?s"
      "s'\<lparr>tableau_refs := tableau_refs ?s, foundation_refs := foundation_refs ?s\<rparr> =
         ?s\<lparr>moves := moves ?s + 2\<rparr>"
    by blast
  from s'(4) have "moves (s'\<lparr>tableau_refs := tableau_refs ?s,
      foundation_refs := foundation_refs ?s\<rparr>) = moves (?s\<lparr>moves := moves ?s + 2\<rparr>)"
    by (rule arg_cong)
  then have ms: "moves s' = 3" using m by simp
  from redo_after_undo[OF h' f'] obtain d' where
    d': "redo (state_of (undo ?d)) = Returned () d'" "tableau d' = tableau ?d"
      "d'\<lparr>tableau_refs := tableau_refs ?d, foundation_refs := foundation_refs ?d\<rparr> =
         ?d\<lparr>moves := moves ?d + 2\<rparr>"
    by blast
  from d'(3) have "moves (d'\<lparr>tableau_refs := tableau_refs ?d,
      foundation_refs := foundation_refs ?d\<rparr>) = moves (?d\<lparr>moves := moves ?d + 2\<rparr>)"
    by (rule arg_cong)
  then have md: "moves d' = 13" using m' by simp
  show ?thesis
    using h f f' s'(1,2,3) ms d'(1,2) md by simp
qed


section \<open>What the code does where it departs from the specification\<close>

lemma played10: "run play10 game_test1 = game10"
  by (simp add: game_test1_eq game10_eq)

lemma played_on: "run (play10 @ ops) game_test1 = run ops game10"
  by (simp add: run_append played10)

text \<open>
  C1. Undo is not an exact inverse. In the game of seed \<^verbatim>\<open>test1\<close>, after the ten
  operations \<open>play10\<close>, \<^verbatim>\<open>doMove(2, 6, 4)\<close> puts the run queen-to-2 on the king of
  column 5 and completes it: two entries are recorded. The first \<^verbatim>\<open>undo()\<close> pushes the
  removed cards back in the order they were removed, top first, so the run comes back
  reversed (2 at the bottom, king on top). The second \<^verbatim>\<open>undo()\<close> then takes the top
  eleven cards of that column (3 up to the king) for the moved ones: the 2 stays in
  column 5, copies of the moved cards go back to column 3, and the king is in no column.
\<close>

theorem undo_reverses_run:
  "doMove 2 6 4 (run play10 game_test1) =
     Returned True (run (play10 @ [DoMove 2 6 4]) game_test1) \<and>
   length (history (run (play10 @ [DoMove 2 6 4]) game_test1)) =
     length (history (run play10 game_test1)) + 2 \<and>
   tableau (run play10 game_test1) ! 4 =
     [spade 101 11 False, spade 70 6 False, spade 22 10 False, spade 90 13 True] \<and>
   tableau (run (play10 @ [DoMove 2 6 4, Undo]) game_test1) ! 4 =
     [spade 101 11 False, spade 70 6 False, spade 22 10 False, spade 1 2 True,
      spade 93 3 True, spade 55 4 True, spade 30 5 True, spade 31 6 True, spade 19 7 True,
      spade 46 8 True, spade 60 9 True, spade 74 10 True, spade 23 11 True, spade 63 12 True,
      spade 90 13 True] \<and>
   tableau (run (play10 @ [DoMove 2 6 4, Undo, Undo]) game_test1) ! 4 =
     [spade 101 11 False, spade 70 6 False, spade 22 10 False, spade 1 2 True] \<and>
   tableau (run (play10 @ [DoMove 2 6 4, Undo, Undo]) game_test1) ! 2 =
     tableau (run play10 game_test1) ! 2 \<and>
   tableau (run (play10 @ [DoMove 2 6 4, Undo, Undo]) game_test1) \<noteq>
     tableau (run play10 game_test1)"
  unfolding played_on played10 by code_simp

text \<open>
  The same law fails for a deal that dealt nothing: with the stock empty \<^verbatim>\<open>dealRow\<close>
  records a deal of no card, and \<^verbatim>\<open>undo()\<close> still pops the top of all ten columns into
  the stock and raises \<^verbatim>\<open>dealsRemaining\<close>.
\<close>

lemma undo_empty_deal:
  "stock (run (play10 @ [DealRow, DealRow, DealRow]) game_test1) = [] \<and>
   map length (tableau (run (play10 @ [DealRow, DealRow, DealRow]) game_test1)) =
     [8, 8, 20, 7, 7, 10, 9, 9, 9, 9] \<and>
   tableau (run (play10 @ [DealRow, DealRow, DealRow, DealRow]) game_test1) =
     tableau (run (play10 @ [DealRow, DealRow, DealRow]) game_test1) \<and>
   map length (tableau (run (play10 @ [DealRow, DealRow, DealRow, DealRow, Undo]) game_test1)) =
     [7, 7, 19, 6, 6, 9, 8, 8, 8, 8] \<and>
   length (stock (run (play10 @ [DealRow, DealRow, DealRow, DealRow, Undo]) game_test1)) = 10 \<and>
   dealsRemaining (run (play10 @ [DealRow, DealRow, DealRow, DealRow, Undo]) game_test1) = 1"
  unfolding played_on by code_simp

text \<open>
  For a move that completes nothing, \<^verbatim>\<open>undo()\<close> does put the cards back: after the
  first move of the game and its undo, the tableau and the stock hold the cards of the
  fresh deal, with their flags.
\<close>

lemma undo_plain_move:
  "tableau (run [DoMove 1 4 4, Undo] game_test1) = tableau game_test1 \<and>
   stock (run [DoMove 1 4 4, Undo] game_test1) = stock game_test1 \<and>
   foundationsCards (run [DoMove 1 4 4, Undo] game_test1) = []"
  unfolding game_test1_eq by code_simp

text \<open>
  The objects of an entry are shared with the columns. In the same game, after the
  completion, \<^verbatim>\<open>doMove(4, 2, 5)\<close> moves the 10 of spades (id 22) from column 5 to
  column 6 and keeps a face-up clone of it in the move entry. The first \<^verbatim>\<open>undo()\<close> pushes
  that clone on column 5; the second, undoing the completion, looks for the id 22 in
  column 5 and turns the clone face-down, in the column and in the entry on the redo
  stack. The two calls of \<^verbatim>\<open>redo()\<close> then lose the clone from column 5 and push it,
  still face-down, on column 6.
\<close>

lemma entry_objects_shared:
  "tableau (run (play10 @ [DoMove 2 6 4, DoMove 4 2 5]) game_test1) ! 5 =
     [spade 51 13 False, spade 73 9 False, spade 33 8 False, spade 89 12 False,
      spade 66 2 True, spade 83 6 True, spade 62 11 True, spade 22 10 True] \<and>
   tableau (run (play10 @ [DoMove 2 6 4, DoMove 4 2 5, Undo, Undo, Redo, Redo]) game_test1) ! 5 =
     [spade 51 13 False, spade 73 9 False, spade 33 8 False, spade 89 12 False,
      spade 66 2 True, spade 83 6 True, spade 62 11 True, spade 22 10 False] \<and>
   tableau (run (play10 @ [DoMove 2 6 4, DoMove 4 2 5, Undo, Undo, Redo, Redo]) game_test1) ! 4 =
     [spade 101 11 False]"
  unfolding played_on by code_simp

text \<open>
  C2. \<^verbatim>\<open>tryComplete\<close> removes more than the run. On the column king-to-3, a face-down
  9, 2 (aces excluded), the scan skips the face-down card but has pushed its index on
  \<^verbatim>\<open>sequenceIndices\<close>: thirteen cards are removed, the face-down 9 among them, and
  \<^verbatim>\<open>completeTopRun\<close> appends all thirteen to the foundations list while counting one
  run of twelve.
\<close>

theorem tryComplete_takes_face_down:
  "tryComplete interleaved False =
     Some ([spade 1 2 True, spade 21 9 False, spade 2 3 True, spade 3 4 True, spade 4 5 True,
            spade 5 6 True, spade 6 7 True, spade 7 8 True, spade 8 9 True, spade 9 10 True,
            spade 10 11 True, spade 11 12 True, spade 12 13 True], []) \<and>
   fst (completeTopRun 0 False interleaved_state) \<and>
   tableau (snd (completeTopRun 0 False interleaved_state)) ! 0 = [] \<and>
   length (foundationsCards (snd (completeTopRun 0 False interleaved_state))) = 13 \<and>
   spade 21 9 False \<in> set (foundationsCards (snd (completeTopRun 0 False interleaved_state))) \<and>
   foundations (snd (completeTopRun 0 False interleaved_state)) = 1"
  by code_simp

text \<open>
  C3, as stated, fails on the move counter: \<^verbatim>\<open>undo()\<close> and \<^verbatim>\<open>redo()\<close> each end with
  \<^verbatim>\<open>state.moves++\<close>. After the first move of the game of seed \<^verbatim>\<open>test1\<close> the counter is
  1; after undo and redo it is 3, and the score is 499 throughout.
\<close>

theorem redo_after_undo_counterexample:
  "moves (run [DoMove 1 4 4] game_test1) = 1 \<and>
   moves (run [DoMove 1 4 4, Undo, Redo] game_test1) = 3 \<and>
   score (run [DoMove 1 4 4] game_test1) = 499 \<and>
   score (run [DoMove 1 4 4, Undo] game_test1) = 499 \<and>
   score (run [DoMove 1 4 4, Undo, Redo] game_test1) = 499 \<and>
   run [DoMove 1 4 4, Undo, Redo] game_test1 \<noteq> run [DoMove 1 4 4] game_test1"
  unfolding game_test1_eq by code_simp

text \<open>
  C4. Card conservation is lost. In the same game the run completed by
  \<^verbatim>\<open>doMove(2, 6, 4)\<close> has twelve cards (aces are excluded). \<^verbatim>\<open>undo()\<close> puts twelve cards
  back; \<^verbatim>\<open>redo()\<close> then takes \<^verbatim>\<open>col.splice(col.length-13, 13)\<close>, thirteen cards, off the
  column and pushes the twelve recorded ones on the foundations list: the 10 of spades
  with id 22 is in no container and 95 cards are left. Undoing twice instead leaves two
  cards with the id 1.
\<close>

theorem conservation_lost:
  "conserved game_test1 \<and>
   conserved (run (play10 @ [DoMove 2 6 4]) game_test1) \<and>
   length (all_cards (run (play10 @ [DoMove 2 6 4, Undo, Redo]) game_test1)) = 95 \<and>
   22 \<notin> set (map id_card (all_cards (run (play10 @ [DoMove 2 6 4, Undo, Redo]) game_test1))) \<and>
   \<not> conserved (run (play10 @ [DoMove 2 6 4, Undo, Redo]) game_test1) \<and>
   \<not> distinct (map id_card (all_cards (run (play10 @ [DoMove 2 6 4, Undo, Undo]) game_test1))) \<and>
   \<not> conserved (run (play10 @ [DoMove 2 6 4, Undo, Undo]) game_test1)"
  unfolding played_on game_test1_eq by code_simp

text \<open>
  C9. \<^verbatim>\<open>verifyInventory\<close> of \<^verbatim>\<open>logic.js\<close> rejects the fresh game of seed \<^verbatim>\<open>test1\<close>:
  without aces the ids 0, 13, ..., 91 belong to no card and are reported missing.
\<close>

theorem verifyInventory_logic_fresh:
  "verifyInventory_logic game_test1 =
     \<lparr>ok = False, duplicates = [], missing = [0, 13, 26, 39, 52, 65, 78, 91],
      counts_total = 96, counts_tableau = 46, counts_stock = 50, counts_foundations = 0,
      expectedTotal = 96, inv_includeAces = False\<rparr>"
  unfolding game_test1_eq by code_simp

text \<open>The \<^verbatim>\<open>verifyInventory\<close> of \<^verbatim>\<open>validation.js\<close> accepts the same state.\<close>

lemma verifyInventory_validation_fresh:
  "verifyInventory_validation game_test1 =
     \<lparr>ok = True, duplicates = [], missing = [],
      counts_total = 96, counts_tableau = 46, counts_stock = 50, counts_foundations = 0,
      expectedTotal = 96, inv_includeAces = False\<rparr>"
  unfolding game_test1_eq by code_simp

text \<open>
  C8. Two runs of \<^verbatim>\<open>newGame\<close> with the same three arguments do not give the same
  state: \<^verbatim>\<open>newGame\<close> resets the counter \<^verbatim>\<open>foundations\<close> but never assigns
  \<^verbatim>\<open>foundationsCards\<close>. Started from the state the module begins in, the 1-suit game of
  seed \<^verbatim>\<open>test1\<close> without aces has an empty foundations list; started after a game in
  which a run was completed, the same call deals the same tableau and stock and leaves the
  twelve cards of that run in the foundations list, next to a counter of 0, a state the
  \<^verbatim>\<open>verifyInventory\<close> of \<^verbatim>\<open>validation.js\<close> rejects.
\<close>

theorem newGame_keeps_old_foundation:
  "newGame (Some (lit ''1-suit'')) (lit ''test1'') (Some False) state_init \<noteq>
     newGame (Some (lit ''1-suit'')) (lit ''test1'') (Some False)
       (run (play10 @ [DoMove 2 6 4]) game_test1) \<and>
   foundationsCards (newGame (Some (lit ''1-suit'')) (lit ''test1'') (Some False) state_init) = [] \<and>
   length (foundationsCards (newGame (Some (lit ''1-suit'')) (lit ''test1'') (Some False)
       (run (play10 @ [DoMove 2 6 4]) game_test1))) = 12 \<and>
   foundations (newGame (Some (lit ''1-suit'')) (lit ''test1'') (Some False)
       (run (play10 @ [DoMove 2 6 4]) game_test1)) = 0 \<and>
   tableau (newGame (Some (lit ''1-suit'')) (lit ''test1'') (Some False)
       (run (play10 @ [DoMove 2 6 4]) game_test1)) =
     tableau (newGame (Some (lit ''1-suit'')) (lit ''test1'') (Some False) state_init) \<and>
   stock (newGame (Some (lit ''1-suit'')) (lit ''test1'') (Some False)
       (run (play10 @ [DoMove 2 6 4]) game_test1)) =
     stock (newGame (Some (lit ''1-suit'')) (lit ''test1'') (Some False) state_init) \<and>
   \<not> ok (verifyInventory_validation
       (newGame (Some (lit ''1-suit'')) (lit ''test1'') (Some False)
          (run (play10 @ [DoMove 2 6 4]) game_test1)))"
proof -
  let ?s = "run (play10 @ [DoMove 2 6 4]) game_test1"
  let ?a = "newGame (Some (lit ''1-suit'')) (lit ''test1'') (Some False) state_init"
  let ?b = "newGame (Some (lit ''1-suit'')) (lit ''test1'') (Some False) ?s"
  have "?a = newGame None (lit ''test1'') None state_init"
    by (simp add: newGame_def state_init_def)
  then have a: "?a = game0" by (simp add: game0_eq)
  have empty: "foundationsCards ?a = []"
    unfolding a by code_simp
  have stored: "\<forall>r\<in>set (foundation_refs ?s). r < length (store ?s)"
    unfolding played_on by code_simp
  have twelve: "length (foundationsCards ?s) = 12"
    unfolding played_on by code_simp
  have kept: "length (foundationsCards ?b) = 12"
    using newGame_foundationsCards[OF stored] twelve by simp
  have counter: "foundations ?b = 0"
    using newGame_views[of "Some (lit ''1-suit'')" "lit ''test1''" "Some False" ?s] by blast
  have deal: "tableau ?b = tableau ?a" "stock ?b = stock ?a"
    using newGame_same_deal[of "lit ''1-suit''" "lit ''test1''" False ?s state_init] by blast+
  have "foundationsCards ?a \<noteq> foundationsCards ?b"
    using empty kept by auto
  then have differ: "?a \<noteq> ?b" by auto
  have "FoundationsCount 12 0 \<in> set (issues ?b)"
    using kept counter by (simp add: issues_def Let_def)
  then have "issues ?b \<noteq> []" by auto
  then have rejected: "\<not> ok (verifyInventory_validation ?b)"
    by (simp add: verifyInventory_validation_def)
  from differ empty kept counter deal rejected show ?thesis by blast
qed

end
